theory Spec2Isabelle
  imports Complex_Main
begin

section \<open>Data model\<close>

text \<open>
  The durable store of the lending platform (the Django models of \<open>apps/wallets/models.py\<close>
  and \<open>apps/loans/models.py\<close>) as a record of tables.

  \<^item> A \<open>Decimal\<close> is a rational number. Python rounds every \<open>Decimal\<close> operation to 28
    significant digits; sums, differences and products of money amounts stay far below
    that, so they are exact, and the model is exact arithmetic throughout. The column
    widths of the store (\<open>max_digits\<close>) are not modelled.
  \<^item> A user is identified by its primary key, a natural number; a \<open>user\<close> record carries
    the role as well where the code reads it.
  \<^item> The wallet table is keyed by the user (\<open>OneToOneField\<close>), so it is a map from user
    keys to balances. The other tables are lists whose positions are the primary keys:
    the services never delete a row, and a new row is appended.
  \<^item> A model instance loaded from the store is a copy of its row; \<open>save()\<close> writes the
    copy back over the whole row. The copies are explicit values here, so that two
    stale copies of one row behave as they do in the code.
  \<^item> Textual fields that no operation reads (descriptions, purpose, user names,
    creation and update stamps) are left out.
\<close>

datatype role = BORROWER | LENDER

record user =
  user_id :: nat
  user_role :: role

datatype date = Date (year: int) (month: int) (day: int)

datatype datetime = DateTime (date_part: date) (second_of_day: nat)

datatype loan_status = REQUESTED | PENDING_FUNDING | FUNDED | COMPLETED | CANCELLED

datatype payment_state = PENDING | PAID | OVERDUE

datatype transaction_kind = DEPOSIT | WITHDRAWAL | LOAN_FUNDING | LOAN_PAYMENT | PLATFORM_FEE

record wallet =
  wallet_user :: nat
  balance :: rat

record ledger_entry =
  entry_wallet :: nat
  transaction_type :: transaction_kind
  entry_amount :: rat
  reference_id :: "string option"

record loan =
  borrower :: nat
  lender :: "nat option"
  amount :: rat
  term_months :: int
  annual_interest_rate :: rat
  status :: loan_status
  funded_at :: "datetime option"

record offer =
  offer_loan :: nat
  offer_lender :: nat
  offer_rate :: rat
  accepted :: bool

record payment =
  payment_loan :: nat
  payment_number :: int
  due_date :: date
  payment_amount :: rat
  payment_status :: payment_state
  paid_at :: "datetime option"

record db =
  wallets :: "nat \<rightharpoonup> rat"
  transactions :: "ledger_entry list"
  loans :: "loan list"
  offers :: "offer list"
  payments :: "payment list"

definition empty_db :: db where
  "empty_db = \<lparr>wallets = Map.empty, transactions = [], loans = [], offers = [], payments = []\<rparr>"

subsection \<open>Results of service calls\<close>

text \<open>
  A service returns a dictionary with \<open>'success': True\<close>, returns one with
  \<open>'success': False\<close> and an error message, or raises. A \<open>failure\<close> is one of the
  messages of the source; the two messages that embed the needed amount carry it.
\<close>

datatype failure =
    Wallet_not_found
  | Insufficient_funds
  | Sender_wallet_not_found
  | Insufficient_funds_for_platform_fee
  | Only_lenders_can_make_offers
  | Loan_not_found
  | Loan_is_not_available_for_offers
  | Cannot_make_offer_on_your_own_loan
  | You_have_already_made_an_offer_on_this_loan
  | You_can_only_accept_offers_on_your_own_loans
  | Loan_is_not_available_for_offer_acceptance
  | Offer_not_found
  | Offer_has_already_been_accepted
  | You_can_only_make_payments_on_your_own_loans
  | Loan_is_not_in_a_state_where_payments_can_be_made
  | No_pending_payments_found
  | Insufficient_funds_Need rat

datatype exn =
    RolePermissionError
  | LoanNotFoundError
  | UnauthorizedLoanAccessError
  | InvalidLoanStateError
  | InsufficientFundsError
  | IntegrityError
  | DecimalException

datatype 'a outcome = Success 'a | Failure failure | Raised exn

fun succeeded :: "'a outcome \<Rightarrow> bool" where
  "succeeded (Success _) = True"
| "succeeded _ = False"

section \<open>Wallet ledger\<close>

subsection \<open>\<open>WalletRepository\<close> and \<open>TransactionRepository\<close>\<close>

definition get_or_create_wallet :: "nat \<Rightarrow> db \<Rightarrow> wallet \<times> db" where
  "get_or_create_wallet u s =
     (case wallets s u of
        Some b \<Rightarrow> (\<lparr>wallet_user = u, balance = b\<rparr>, s)
      | None \<Rightarrow> (\<lparr>wallet_user = u, balance = 0\<rparr>, s\<lparr>wallets := (wallets s)(u \<mapsto> 0)\<rparr>))"

definition get_wallet_by_user :: "nat \<Rightarrow> db \<Rightarrow> wallet option" where
  "get_wallet_by_user u s =
     (case wallets s u of
        Some b \<Rightarrow> Some \<lparr>wallet_user = u, balance = b\<rparr>
      | None \<Rightarrow> None)"

datatype balance_operation = Add | Subtract

definition update_balance :: "wallet \<Rightarrow> rat \<Rightarrow> balance_operation \<Rightarrow> db \<Rightarrow> wallet \<times> db" where
  "update_balance w a operation s =
     (let w' = (case operation of
                  Add \<Rightarrow> w\<lparr>balance := balance w + a\<rparr>
                | Subtract \<Rightarrow> w\<lparr>balance := balance w - a\<rparr>)
      in (w', s\<lparr>wallets := (wallets s)(wallet_user w' \<mapsto> balance w')\<rparr>))"

definition has_sufficient_balance :: "wallet \<Rightarrow> rat \<Rightarrow> bool" where
  "has_sufficient_balance w a = (balance w \<ge> a)"

definition create_transaction ::
  "wallet \<Rightarrow> transaction_kind \<Rightarrow> rat \<Rightarrow> string option \<Rightarrow> db \<Rightarrow> ledger_entry \<times> db" where
  "create_transaction w k a r s =
     (let e = \<lparr>entry_wallet = wallet_user w, transaction_type = k,
                entry_amount = a, reference_id = r\<rparr>
      in (e, s\<lparr>transactions := transactions s @ [e]\<rparr>))"

subsection \<open>\<open>WalletService\<close>\<close>

text \<open>
  Every service body runs inside \<open>transaction.atomic()\<close>. Leaving the block by
  \<open>return\<close> commits what was written before, so the wallet that
  \<open>get_or_create_wallet\<close> may have inserted stays when \<open>transfer_funds\<close> returns a
  failure afterwards.
\<close>

definition get_wallet_balance :: "nat \<Rightarrow> db \<Rightarrow> rat" where
  "get_wallet_balance u s =
     (case get_wallet_by_user u s of Some w \<Rightarrow> balance w | None \<Rightarrow> 0)"

definition deposit_funds :: "nat \<Rightarrow> rat \<Rightarrow> db \<Rightarrow> (rat \<times> ledger_entry) outcome \<times> db" where
  "deposit_funds u a s =
     (let (w, s1) = get_or_create_wallet u s;
          (w', s2) = update_balance w a Add s1;
          (e, s3) = create_transaction w' DEPOSIT a None s2
      in (Success (balance w', e), s3))"

definition withdraw_funds :: "nat \<Rightarrow> rat \<Rightarrow> db \<Rightarrow> (rat \<times> ledger_entry) outcome \<times> db" where
  "withdraw_funds u a s =
     (case get_wallet_by_user u s of
        None \<Rightarrow> (Failure Wallet_not_found, s)
      | Some w \<Rightarrow>
          if \<not> has_sufficient_balance w a then (Failure Insufficient_funds, s)
          else
            let (w', s1) = update_balance w a Subtract s;
                (e, s2) = create_transaction w' WITHDRAWAL a None s1
            in (Success (balance w', e), s2))"

definition transfer_funds ::
  "nat \<Rightarrow> nat \<Rightarrow> rat \<Rightarrow> transaction_kind \<Rightarrow> string option \<Rightarrow> db
     \<Rightarrow> (rat \<times> rat \<times> ledger_entry \<times> ledger_entry) outcome \<times> db" where
  "transfer_funds from_user to_user a k r s =
     (let from_wallet = get_wallet_by_user from_user s;
          (to_wallet, s1) = get_or_create_wallet to_user s
      in case from_wallet of
           None \<Rightarrow> (Failure Sender_wallet_not_found, s1)
         | Some fw \<Rightarrow>
             if \<not> has_sufficient_balance fw a then (Failure Insufficient_funds, s1)
             else
               let (fw', s2) = update_balance fw a Subtract s1;
                   (tw', s3) = update_balance to_wallet a Add s2;
                   (from_transaction, s4) = create_transaction fw' k (- a) r s3;
                   (to_transaction, s5) = create_transaction tw' k a r s4
               in (Success (balance fw', balance tw', from_transaction, to_transaction), s5))"

definition deduct_platform_fee ::
  "nat \<Rightarrow> rat \<Rightarrow> string option \<Rightarrow> db \<Rightarrow> (rat \<times> ledger_entry) outcome \<times> db" where
  "deduct_platform_fee u a r s =
     (case get_wallet_by_user u s of
        None \<Rightarrow> (Failure Wallet_not_found, s)
      | Some w \<Rightarrow>
          if \<not> has_sufficient_balance w a then (Failure Insufficient_funds_for_platform_fee, s)
          else
            let (w', s1) = update_balance w a Subtract s;
                (e, s2) = create_transaction w' PLATFORM_FEE (- a) r s1
            in (Success (balance w', e), s2))"

definition check_balance :: "nat \<Rightarrow> rat \<Rightarrow> db \<Rightarrow> bool" where
  "check_balance u required_amount s =
     (case get_wallet_by_user u s of
        None \<Rightarrow> False
      | Some w \<Rightarrow> has_sufficient_balance w required_amount)"

subsection \<open>The wallet operations as data\<close>

text \<open>
  The five operations a caller can run on the wallet ledger, with their arguments, and
  the store each leaves behind. \<open>balances_nonneg\<close> is the invariant of claim C4.
\<close>

datatype wallet_op =
    Deposit nat rat
  | Withdraw nat rat
  | Transfer nat nat rat transaction_kind "string option"
  | Deduct_fee nat rat "string option"
  | Get_or_create nat

fun wallet_op_amount :: "wallet_op \<Rightarrow> rat" where
  "wallet_op_amount (Deposit u a) = a"
| "wallet_op_amount (Withdraw u a) = a"
| "wallet_op_amount (Transfer f t a k r) = a"
| "wallet_op_amount (Deduct_fee u a r) = a"
| "wallet_op_amount (Get_or_create u) = 0"

fun run_wallet_op :: "wallet_op \<Rightarrow> db \<Rightarrow> db" where
  "run_wallet_op (Deposit u a) s = snd (deposit_funds u a s)"
| "run_wallet_op (Withdraw u a) s = snd (withdraw_funds u a s)"
| "run_wallet_op (Transfer f t a k r) s = snd (transfer_funds f t a k r s)"
| "run_wallet_op (Deduct_fee u a r) s = snd (deduct_platform_fee u a r s)"
| "run_wallet_op (Get_or_create u) s = snd (get_or_create_wallet u s)"

definition balances_nonneg :: "db \<Rightarrow> bool" where
  "balances_nonneg s = (\<forall>u b. wallets s u = Some b \<longrightarrow> 0 \<le> b)"

subsection \<open>Example stores\<close>

definition ledger_db :: db where
  "ledger_db = empty_db\<lparr>wallets := [5 \<mapsto> 100]\<rparr>"

section \<open>Amortization\<close>

text \<open>
  \<open>Decimal.quantize(Decimal('0.01'))\<close> rounds to two decimal places with the rounding mode
  of the context, which is \<open>ROUND_HALF_EVEN\<close> unless the program changes it; the
  program never does. A tie goes to the neighbour whose last digit is even.
\<close>

definition quantize :: "rat \<Rightarrow> rat" where
  "quantize x =
     (let y = x * 100;
          f = \<lfloor>y\<rfloor>;
          d = y - of_int f;
          n = (if d < 1 / 2 then f
               else if 1 / 2 < d then f + 1
               else if even f then f else f + 1)
      in of_int n / 100)"

text \<open>
  \<open>Loan.monthly_payment\<close>. Division by zero and the operations on an infinity raise a
  \<open>decimal\<close> exception: that happens when \<open>(1 + r) ** n = 1\<close> with \<open>r \<noteq> 0\<close>, and when
  \<open>1 + r = 0\<close> with a negative term (\<open>0 ** n\<close> is then an infinity, and the quotient of
  two infinities is invalid).
\<close>

definition monthly_payment :: "loan \<Rightarrow> exn + rat" where
  "monthly_payment l =
     (if term_months l = 0 then Inr 0
      else
        let monthly_rate = annual_interest_rate l / 100 / 12
        in if monthly_rate = 0 then Inr (amount l / of_int (term_months l))
           else if 1 + monthly_rate = 0 \<and> term_months l < 0 then Inl DecimalException
           else
             let growth = (1 + monthly_rate) powi term_months l
             in if growth - 1 = 0 then Inl DecimalException
                else Inr (quantize (amount l * monthly_rate * growth / (growth - 1))))"

definition total_amount :: "loan \<Rightarrow> exn + rat" where
  "total_amount l =
     (case monthly_payment l of
        Inl e \<Rightarrow> Inl e
      | Inr p \<Rightarrow> Inr (p * of_int (term_months l)))"

subsection \<open>The rounding rules in words\<close>





definition loan_request :: "nat \<Rightarrow> rat \<Rightarrow> int \<Rightarrow> rat \<Rightarrow> loan" where
  "loan_request b a n rate =
     \<lparr>borrower = b, lender = None, amount = a, term_months = n,
      annual_interest_rate = rate, status = REQUESTED, funded_at = None\<rparr>"

section \<open>Calendar\<close>

text \<open>
  \<open>date + relativedelta(months=k)\<close> for \<open>k \<ge> 1\<close>: the month advances by \<open>k\<close>, carrying into
  the year, and the day is clipped to the length of the month reached.
\<close>

definition is_leap :: "int \<Rightarrow> bool" where
  "is_leap y = (y mod 4 = 0 \<and> (y mod 100 \<noteq> 0 \<or> y mod 400 = 0))"

definition days_in_month :: "int \<Rightarrow> int \<Rightarrow> int" where
  "days_in_month y m =
     (if m = 2 then (if is_leap y then 29 else 28)
      else if m = 4 \<or> m = 6 \<or> m = 9 \<or> m = 11 then 30
      else 31)"

definition add_months :: "date \<Rightarrow> int \<Rightarrow> date" where
  "add_months d k =
     (let t = month d - 1 + k;
          y = year d + t div 12;
          m = t mod 12 + 1
      in Date y m (min (day d) (days_in_month y m)))"

fun date_less :: "date \<Rightarrow> date \<Rightarrow> bool" where
  "date_less (Date y m d) (Date y' m' d') =
     (y < y' \<or> (y = y' \<and> (m < m' \<or> (m = m' \<and> d < d'))))"

section \<open>Loans, offers and payments\<close>

subsection \<open>Reference ids\<close>

text \<open>
  The reference ids are the strings \<open>f'loan_{loan.id}'\<close>, \<open>f'loan_{loan.id}_fee'\<close> and
  \<open>f'payment_{payment.id}'\<close>; \<open>str_nat\<close> is the decimal rendering of a key.
\<close>

fun str_nat :: "nat \<Rightarrow> string" where
  "str_nat n =
     (if n < 10 then [''0123456789'' ! n]
      else str_nat (n div 10) @ [''0123456789'' ! (n mod 10)])"

declare str_nat.simps [simp del]

definition loan_reference :: "nat \<Rightarrow> string" where
  "loan_reference i = ''loan_'' @ str_nat i"

definition fee_reference :: "nat \<Rightarrow> string" where
  "fee_reference i = ''loan_'' @ str_nat i @ ''_fee''"

definition payment_reference :: "nat \<Rightarrow> string" where
  "payment_reference i = ''payment_'' @ str_nat i"

subsection \<open>\<open>LoanRepository\<close>\<close>

text \<open>
  A loaded instance is the pair of its primary key and a copy of its row. The keyword
  arguments of \<open>update_loan\<close> are the function that sets those fields.
\<close>

definition repo_create_loan :: "nat \<Rightarrow> rat \<Rightarrow> int \<Rightarrow> rat \<Rightarrow> db \<Rightarrow> (nat \<times> loan) \<times> db" where
  "repo_create_loan b a n rate s =
     (let l = \<lparr>borrower = b, lender = None, amount = a, term_months = n,
                annual_interest_rate = rate, status = REQUESTED, funded_at = None\<rparr>
      in ((length (loans s), l), s\<lparr>loans := loans s @ [l]\<rparr>))"

definition get_loan_by_id :: "nat \<Rightarrow> db \<Rightarrow> (nat \<times> loan) option" where
  "get_loan_by_id i s = (if i < length (loans s) then Some (i, loans s ! i) else None)"

definition update_loan :: "(nat \<times> loan) \<Rightarrow> (loan \<Rightarrow> loan) \<Rightarrow> db \<Rightarrow> (nat \<times> loan) \<times> db" where
  "update_loan lo set_fields s =
     (let l' = set_fields (snd lo)
      in ((fst lo, l'), s\<lparr>loans := (loans s)[fst lo := l']\<rparr>))"

subsection \<open>\<open>OfferRepository\<close>\<close>

definition repo_create_offer :: "(nat \<times> loan) \<Rightarrow> nat \<Rightarrow> rat \<Rightarrow> db \<Rightarrow> (nat \<times> offer) \<times> db" where
  "repo_create_offer lo lender_id rate s =
     (let off = \<lparr>offer_loan = fst lo, offer_lender = lender_id, offer_rate = rate,
                  accepted = False\<rparr>
      in ((length (offers s), off), s\<lparr>offers := offers s @ [off]\<rparr>))"

definition get_offer_by_id :: "nat \<Rightarrow> db \<Rightarrow> (nat \<times> offer) option" where
  "get_offer_by_id i s = (if i < length (offers s) then Some (i, offers s ! i) else None)"

definition repo_accept_offer :: "(nat \<times> offer) \<Rightarrow> db \<Rightarrow> (nat \<times> offer) \<times> db" where
  "repo_accept_offer off s =
     (let off' = (snd off)\<lparr>accepted := True\<rparr>
      in ((fst off, off'), s\<lparr>offers := (offers s)[fst off := off']\<rparr>))"

definition check_existing_offer :: "(nat \<times> loan) \<Rightarrow> nat \<Rightarrow> db \<Rightarrow> bool" where
  "check_existing_offer lo lender_id s =
     list_ex (\<lambda>off. offer_loan off = fst lo \<and> offer_lender off = lender_id) (offers s)"

subsection \<open>\<open>PaymentRepository\<close> and \<open>Payment\<close>\<close>

text \<open>
  \<open>get_next_pending_payment\<close> filters the loan's \<open>PENDING\<close> payments, orders them by
  \<open>payment_number\<close> and takes the first. The sort is stable, so equal numbers (which the
  uniqueness of \<open>(loan, payment_number)\<close> rules out) would come in key order.
\<close>

definition get_next_pending_payment :: "nat \<Rightarrow> db \<Rightarrow> (nat \<times> payment) option" where
  "get_next_pending_payment loan_id s =
     (case sort_key (\<lambda>ip. payment_number (snd ip))
             (filter (\<lambda>ip. payment_loan (snd ip) = loan_id \<and> payment_status (snd ip) = PENDING)
                (enumerate 0 (payments s))) of
        [] \<Rightarrow> None
      | ip # _ \<Rightarrow> Some ip)"

definition mark_payment_as_paid :: "(nat \<times> payment) \<Rightarrow> datetime \<Rightarrow> db \<Rightarrow> (nat \<times> payment) \<times> db" where
  "mark_payment_as_paid ip now s =
     (let p' = (snd ip)\<lparr>payment_status := PAID, paid_at := Some now\<rparr>
      in ((fst ip, p'), s\<lparr>payments := (payments s)[fst ip := p']\<rparr>))"

record payment_summary =
  total :: nat
  paid :: nat
  remaining :: nat
  all_paid :: bool

definition get_all_payments_for_loan_status :: "nat \<Rightarrow> db \<Rightarrow> payment_summary" where
  "get_all_payments_for_loan_status loan_id s =
     (let ps = filter (\<lambda>p. payment_loan p = loan_id) (payments s);
          total_payments = length ps;
          paid_payments = length (filter (\<lambda>p. payment_status p = PAID) ps)
      in \<lparr>total = total_payments, paid = paid_payments,
          remaining = total_payments - paid_payments,
          all_paid = (paid_payments = total_payments \<and> total_payments > 0)\<rparr>)"

text \<open>
  \<open>Payment.generate_payment_schedule\<close>: one \<open>PENDING\<close> payment per month of the term,
  numbered from 1, due the funding date plus that many months, inserted in bulk. The
  insertion raises \<open>IntegrityError\<close> when a payment of the loan with one of these numbers
  exists already (\<open>unique_together\<close>); a \<open>decimal\<close> exception of \<open>monthly_payment\<close>
  propagates. The store is returned unchanged when the call raises.
\<close>

definition schedule_rows :: "nat \<Rightarrow> loan \<Rightarrow> rat \<Rightarrow> date \<Rightarrow> payment list" where
  "schedule_rows loan_id l monthly funding_date =
     map (\<lambda>m. \<lparr>payment_loan = loan_id, payment_number = m,
                 due_date = add_months funding_date m, payment_amount = monthly,
                 payment_status = PENDING, paid_at = None\<rparr>)
       [1..term_months l]"

definition generate_payment_schedule ::
  "(nat \<times> loan) \<Rightarrow> date \<Rightarrow> db \<Rightarrow> payment list outcome \<times> db" where
  "generate_payment_schedule lo today s =
     (case monthly_payment (snd lo) of
        Inl e \<Rightarrow> (Raised e, s)
      | Inr monthly \<Rightarrow>
          let funding_date = (case funded_at (snd lo) of
                                Some t \<Rightarrow> date_part t
                              | None \<Rightarrow> today);
              rows = schedule_rows (fst lo) (snd lo) monthly funding_date
          in if list_ex (\<lambda>p. payment_loan p = fst lo
                              \<and> 1 \<le> payment_number p \<and> payment_number p \<le> term_months (snd lo))
                  (payments s)
             then (Raised IntegrityError, s)
             else (Success rows, s\<lparr>payments := payments s @ rows\<rparr>))"

subsection \<open>\<open>LoanService\<close> and \<open>OfferService\<close>\<close>

definition create_loan :: "user \<Rightarrow> rat \<Rightarrow> int \<Rightarrow> rat \<Rightarrow> db \<Rightarrow> (nat \<times> loan) outcome \<times> db" where
  "create_loan b a n rate s =
     (if user_role b \<noteq> BORROWER then (Raised RolePermissionError, s)
      else let (lo, s1) = repo_create_loan (user_id b) a n rate s in (Success lo, s1))"

definition create_offer :: "nat \<Rightarrow> user \<Rightarrow> rat \<Rightarrow> db \<Rightarrow> (nat \<times> offer) outcome \<times> db" where
  "create_offer loan_id lender_user rate s =
     (if user_role lender_user \<noteq> LENDER then (Failure Only_lenders_can_make_offers, s)
      else
        case get_loan_by_id loan_id s of
          None \<Rightarrow> (Failure Loan_not_found, s)
        | Some lo \<Rightarrow>
            if status (snd lo) \<noteq> REQUESTED then (Failure Loan_is_not_available_for_offers, s)
            else if borrower (snd lo) = user_id lender_user
              then (Failure Cannot_make_offer_on_your_own_loan, s)
            else if check_existing_offer lo (user_id lender_user) s
              then (Failure You_have_already_made_an_offer_on_this_loan, s)
            else
              let (off, s1) = repo_create_offer lo (user_id lender_user) rate s
              in (Success off, s1))"



text \<open>
  \<open>OfferService.accept_offer\<close> in its two parts: the checks, which only read (they load
  the loan and the offer), and the \<open>transaction.atomic()\<close> block, which saves the two
  loaded copies with the new field values. Nothing is read again between the two parts.
\<close>

definition accept_offer_checks ::
  "nat \<Rightarrow> nat \<Rightarrow> nat \<Rightarrow> db \<Rightarrow> ((nat \<times> loan) \<times> (nat \<times> offer)) outcome" where
  "accept_offer_checks loan_id offer_id b s =
     (case get_loan_by_id loan_id s of
        None \<Rightarrow> Failure Loan_not_found
      | Some lo \<Rightarrow>
          if borrower (snd lo) \<noteq> b then Failure You_can_only_accept_offers_on_your_own_loans
          else if status (snd lo) \<noteq> REQUESTED
            then Failure Loan_is_not_available_for_offer_acceptance
          else
            case get_offer_by_id offer_id s of
              None \<Rightarrow> Failure Offer_not_found
            | Some off \<Rightarrow>
                if offer_loan (snd off) \<noteq> fst lo then Failure Offer_not_found
                else if accepted (snd off) then Failure Offer_has_already_been_accepted
                else Success (lo, off))"

definition accept_offer_writes ::
  "(nat \<times> loan) \<Rightarrow> (nat \<times> offer) \<Rightarrow> db \<Rightarrow> (nat \<times> loan) outcome \<times> db" where
  "accept_offer_writes lo off s =
     (let (off', s1) = repo_accept_offer off s;
          (lo', s2) = update_loan lo
                        (\<lambda>l. l\<lparr>lender := Some (offer_lender (snd off')),
                                annual_interest_rate := offer_rate (snd off'),
                                status := PENDING_FUNDING\<rparr>) s1
      in (Success lo', s2))"

definition accept_offer :: "nat \<Rightarrow> nat \<Rightarrow> nat \<Rightarrow> db \<Rightarrow> (nat \<times> loan) outcome \<times> db" where
  "accept_offer loan_id offer_id b s =
     (case accept_offer_checks loan_id offer_id b s of
        Success (lo, off) \<Rightarrow> accept_offer_writes lo off s
      | Failure e \<Rightarrow> (Failure e, s)
      | Raised x \<Rightarrow> (Raised x, s))"

subsection \<open>\<open>LoanFundingService\<close>\<close>

text \<open>
  The platform fee is \<open>settings.PLATFORM_FUNDING_FEE\<close>, a constant of the deployment; it
  is the first argument. \<open>now\<close> and \<open>today\<close> are the readings of the clock.

  The four checks raise before anything is written. Inside the \<open>transaction.atomic()\<close>
  block a \<open>return\<close> commits what was written so far, and an exception rolls all of it
  back: the store is then the one the call started from.
\<close>

definition fund_loan ::
  "rat \<Rightarrow> datetime \<Rightarrow> date \<Rightarrow> nat \<Rightarrow> nat \<Rightarrow> db \<Rightarrow> (nat \<times> loan) outcome \<times> db" where
  "fund_loan platform_fee now today loan_id lender_id s =
     (case get_loan_by_id loan_id s of
        None \<Rightarrow> (Raised LoanNotFoundError, s)
      | Some lo \<Rightarrow>
          if lender (snd lo) \<noteq> Some lender_id then (Raised UnauthorizedLoanAccessError, s)
          else if status (snd lo) \<noteq> PENDING_FUNDING then (Raised InvalidLoanStateError, s)
          else
            let total_needed = amount (snd lo) + platform_fee
            in if \<not> check_balance lender_id total_needed s
               then (Raised InsufficientFundsError, s)
               else
                 let (transfer_result, s1) =
                       transfer_funds lender_id (borrower (snd lo)) (amount (snd lo))
                         LOAN_FUNDING (Some (loan_reference (fst lo))) s
                 in case transfer_result of
                      Failure e \<Rightarrow> (Failure e, s1)
                    | Raised x \<Rightarrow> (Raised x, s)
                    | Success _ \<Rightarrow>
                        let (fee_result, s2) =
                              deduct_platform_fee lender_id platform_fee
                                (Some (fee_reference (fst lo))) s1
                        in case fee_result of
                             Failure e \<Rightarrow> (Failure e, s2)
                           | Raised x \<Rightarrow> (Raised x, s)
                           | Success _ \<Rightarrow>
                               let (lo', s3) =
                                     update_loan lo
                                       (\<lambda>l. l\<lparr>status := FUNDED, funded_at := Some now\<rparr>) s2
                               in case generate_payment_schedule lo' today s3 of
                                    (Success _, s4) \<Rightarrow> (Success lo', s4)
                                  | (Failure e, _) \<Rightarrow> (Failure e, s)
                                  | (Raised x, _) \<Rightarrow> (Raised x, s))"

subsection \<open>\<open>PaymentService\<close>\<close>

text \<open>
  A funded loan without a lender makes \<open>get_or_create_wallet(None)\<close> raise
  \<open>IntegrityError\<close> inside the atomic block, which rolls back.
\<close>

definition make_payment ::
  "datetime \<Rightarrow> nat \<Rightarrow> nat \<Rightarrow> db \<Rightarrow> ((nat \<times> payment) \<times> bool) outcome \<times> db" where
  "make_payment now loan_id b s =
     (case get_loan_by_id loan_id s of
        None \<Rightarrow> (Failure Loan_not_found, s)
      | Some lo \<Rightarrow>
          if borrower (snd lo) \<noteq> b
            then (Failure You_can_only_make_payments_on_your_own_loans, s)
          else if status (snd lo) \<noteq> FUNDED
            then (Failure Loan_is_not_in_a_state_where_payments_can_be_made, s)
          else
            case get_next_pending_payment (fst lo) s of
              None \<Rightarrow> (Failure No_pending_payments_found, s)
            | Some next_payment \<Rightarrow>
                if \<not> check_balance b (payment_amount (snd next_payment)) s
                  then (Failure (Insufficient_funds_Need (payment_amount (snd next_payment))), s)
                else
                  case lender (snd lo) of
                    None \<Rightarrow> (Raised IntegrityError, s)
                  | Some lender_id \<Rightarrow>
                      let (transfer_result, s1) =
                            transfer_funds b lender_id (payment_amount (snd next_payment))
                              LOAN_PAYMENT (Some (payment_reference (fst next_payment))) s
                      in case transfer_result of
                           Failure e \<Rightarrow> (Failure e, s1)
                         | Raised x \<Rightarrow> (Raised x, s)
                         | Success _ \<Rightarrow>
                             let (paid_payment, s2) = mark_payment_as_paid next_payment now s1;
                                 summary = get_all_payments_for_loan_status (fst lo) s2;
                                 s3 = (if all_paid summary
                                       then snd (update_loan lo (\<lambda>l. l\<lparr>status := COMPLETED\<rparr>) s2)
                                       else s2)
                             in (Success (paid_payment, all_paid summary), s3))"

section \<open>Overdue sweep\<close>

text \<open>
  \<open>check_overdue_payments\<close> with the reading \<open>today\<close> of the clock. The query is counted,
  then iterated; each iteration sets the status column of one row
  (\<open>save(update_fields=['status'])\<close>). The report of the empty case has no
  \<open>affected\<close> entries.
\<close>

definition overdue_payments :: "date \<Rightarrow> db \<Rightarrow> (nat \<times> payment) list" where
  "overdue_payments today s =
     filter (\<lambda>ip. payment_status (snd ip) = PENDING \<and> date_less (due_date (snd ip)) today)
       (enumerate 0 (payments s))"

definition save_status_overdue :: "(nat \<times> payment) \<Rightarrow> db \<Rightarrow> db" where
  "save_status_overdue ip s =
     s\<lparr>payments := (payments s)[fst ip := (payments s ! fst ip)\<lparr>payment_status := OVERDUE\<rparr>]\<rparr>"

record sweep_report =
  overdue_payments_found :: nat
  payments_marked_overdue :: nat
  affected_loans :: "nat option"
  affected_borrowers :: "nat option"

definition check_overdue_payments :: "date \<Rightarrow> db \<Rightarrow> sweep_report \<times> db" where
  "check_overdue_payments today s =
     (let found = overdue_payments today s;
          total_overdue = length found
      in if total_overdue = 0
         then (\<lparr>overdue_payments_found = 0, payments_marked_overdue = 0,
                 affected_loans = None, affected_borrowers = None\<rparr>, s)
         else
           let s' = fold save_status_overdue found s;
               loan_ids = remdups (map (\<lambda>ip. payment_loan (snd ip)) found);
               borrower_ids = remdups (List.map_filter
                                (\<lambda>i. map_option (\<lambda>lo. borrower (snd lo)) (get_loan_by_id i s))
                                loan_ids)
           in (\<lparr>overdue_payments_found = total_overdue,
                 payments_marked_overdue = length found,
                 affected_loans = Some (length loan_ids),
                 affected_borrowers = Some (length borrower_ids)\<rparr>, s'))"

section \<open>Sequences of operations\<close>

text \<open>
  The operations of the core as data, each with its arguments and its readings of the
  clock, and the store a sequence of them leaves behind; the platform fee is fixed for
  the run.
\<close>

datatype core_op =
    Op_wallet wallet_op
  | Op_create_loan user rat int rat
  | Op_create_offer nat user rat
  | Op_accept_offer nat nat nat
  | Op_fund_loan datetime date nat nat
  | Op_make_payment datetime nat nat
  | Op_sweep date

fun step :: "rat \<Rightarrow> core_op \<Rightarrow> db \<Rightarrow> db" where
  "step fee (Op_wallet w) s = run_wallet_op w s"
| "step fee (Op_create_loan b a n rate) s = snd (create_loan b a n rate s)"
| "step fee (Op_create_offer loan_id u rate) s = snd (create_offer loan_id u rate s)"
| "step fee (Op_accept_offer loan_id offer_id b) s = snd (accept_offer loan_id offer_id b s)"
| "step fee (Op_fund_loan now today loan_id u) s = snd (fund_loan fee now today loan_id u s)"
| "step fee (Op_make_payment now loan_id b) s = snd (make_payment now loan_id b s)"
| "step fee (Op_sweep today) s = snd (check_overdue_payments today s)"

definition run :: "rat \<Rightarrow> core_op list \<Rightarrow> db \<Rightarrow> db" where
  "run fee ops s = fold (step fee) ops s"

section \<open>Ledger sums\<close>

text \<open>
  The sum of the signed amounts of the ledger entries that carry a reference id; the
  same sum over the entries that are not \<open>PLATFORM_FEE\<close> entries, and over those that
  are. \<open>ledger_zero_sum\<close> says that the first sum is zero for every reference id that
  appears in the ledger, \<open>ledger_balanced\<close> says it of the second.
\<close>

definition reference_sum :: "string \<Rightarrow> ledger_entry list \<Rightarrow> rat" where
  "reference_sum r es = sum_list (map entry_amount (filter (\<lambda>e. reference_id e = Some r) es))"

definition transfer_sum :: "string \<Rightarrow> ledger_entry list \<Rightarrow> rat" where
  "transfer_sum r es =
     sum_list (map entry_amount
       (filter (\<lambda>e. reference_id e = Some r \<and> transaction_type e \<noteq> PLATFORM_FEE) es))"

definition fee_sum :: "string \<Rightarrow> ledger_entry list \<Rightarrow> rat" where
  "fee_sum r es =
     sum_list (map entry_amount
       (filter (\<lambda>e. reference_id e = Some r \<and> transaction_type e = PLATFORM_FEE) es))"

definition ledger_zero_sum :: "db \<Rightarrow> bool" where
  "ledger_zero_sum s =
     list_all (\<lambda>r. reference_sum r (transactions s) = 0)
       (List.map_filter reference_id (transactions s))"

definition ledger_balanced :: "db \<Rightarrow> bool" where
  "ledger_balanced s =
     list_all (\<lambda>r. transfer_sum r (transactions s) = 0)
       (List.map_filter reference_id (transactions s))"

definition balanced_extension :: "ledger_entry list \<Rightarrow> ledger_entry list \<Rightarrow> bool" where
  "balanced_extension es es' = (\<exists>xs. es' = es @ xs \<and> (\<forall>r. transfer_sum r xs = 0))"

section \<open>Overdue payments and completion\<close>

definition has_overdue :: "nat \<Rightarrow> db \<Rightarrow> bool" where
  "has_overdue i s =
     list_ex (\<lambda>p. payment_loan p = i \<and> payment_status p = OVERDUE) (payments s)"

definition loan_completed :: "nat \<Rightarrow> db \<Rightarrow> bool" where
  "loan_completed i s = (i < length (loans s) \<and> status (loans s ! i) = COMPLETED)"

section \<open>Example stores for the loan operations\<close>






definition mark_overdue :: "date \<Rightarrow> payment \<Rightarrow> payment" where
  "mark_overdue today p =
     (if payment_status p = PENDING \<and> date_less (due_date p) today
      then p\<lparr>payment_status := OVERDUE\<rparr> else p)"

definition installment :: "nat \<Rightarrow> int \<Rightarrow> date \<Rightarrow> rat \<Rightarrow> payment_state \<Rightarrow> payment" where
  "installment loan_id n due a st =
     \<lparr>payment_loan = loan_id, payment_number = n, due_date = due, payment_amount = a,
      payment_status = st, paid_at = None\<rparr>"

definition sweep_db :: db where
  "sweep_db = empty_db
     \<lparr>loans := [(loan_request 5 300 3 0)\<lparr>lender := Some 2, status := FUNDED\<rparr>],
      payments := [installment 0 1 (Date 2024 2 15) 100 PAID,
                   installment 0 2 (Date 2024 3 15) 100 PENDING,
                   installment 0 3 (Date 2024 4 15) 100 PENDING]\<rparr>"

definition pay_db :: db where
  "pay_db = sweep_db\<lparr>wallets := [5 \<mapsto> 250]\<rparr>"

definition late_db :: db where
  "late_db = pay_db
     \<lparr>payments := [installment 0 1 (Date 2024 2 15) 100 PAID,
                   installment 0 2 (Date 2024 3 15) 100 OVERDUE,
                   installment 0 3 (Date 2024 4 15) 100 OVERDUE]\<rparr>"

definition noon :: datetime where
  "noon = DateTime (Date 2024 3 1) 43200"

definition last_db :: db where
  "last_db = pay_db
     \<lparr>payments := [installment 0 1 (Date 2024 2 15) 100 PAID,
                   installment 0 2 (Date 2024 3 15) 100 PAID,
                   installment 0 3 (Date 2024 4 15) 100 PENDING]\<rparr>"


text \<open>
  The store after lender 2 has deposited 1500, borrower 5 has requested 1000 over six
  months at 12 percent, lender 2 has offered 12 percent and the borrower has accepted.
\<close>

definition funding_db :: db where
  "funding_db =
     \<lparr>wallets = [2 \<mapsto> 1500],
      transactions = [\<lparr>entry_wallet = 2, transaction_type = DEPOSIT, entry_amount = 1500,
                       reference_id = None\<rparr>],
      loans = [(loan_request 5 1000 6 12)\<lparr>lender := Some 2, status := PENDING_FUNDING\<rparr>],
      offers = [\<lparr>offer_loan = 0, offer_lender = 2, offer_rate = 12, accepted = True\<rparr>],
      payments = []\<rparr>"

definition funding_history :: "core_op list" where
  "funding_history =
     [Op_wallet (Deposit 2 1500),
      Op_create_loan \<lparr>user_id = 5, user_role = BORROWER\<rparr> 1000 6 12,
      Op_create_offer 0 \<lparr>user_id = 2, user_role = LENDER\<rparr> 12,
      Op_accept_offer 0 0 5]"

definition funding_run :: "core_op list" where
  "funding_run = funding_history @ [Op_fund_loan noon (Date 2024 3 1) 0 2]"

section \<open>Properties of the wallet ledger\<close>

lemmas wallet_defs = get_or_create_wallet_def get_wallet_by_user_def update_balance_def
  has_sufficient_balance_def create_transaction_def get_wallet_balance_def Let_def




subsection \<open>Non-negative balances\<close>

lemma deposit_nonneg:
  "balances_nonneg s \<Longrightarrow> 0 \<le> a \<Longrightarrow> balances_nonneg (snd (deposit_funds u a s))"
  by (auto simp: balances_nonneg_def deposit_funds_def wallet_defs split: option.splits if_splits)

lemma withdraw_nonneg:
  "balances_nonneg s \<Longrightarrow> balances_nonneg (snd (withdraw_funds u a s))"
  by (auto simp: balances_nonneg_def withdraw_funds_def wallet_defs split: option.splits if_splits)

lemma deduct_nonneg:
  "balances_nonneg s \<Longrightarrow> balances_nonneg (snd (deduct_platform_fee u a r s))"
  by (auto simp: balances_nonneg_def deduct_platform_fee_def wallet_defs
      split: option.splits if_splits)

lemma transfer_nonneg:
  "balances_nonneg s \<Longrightarrow> 0 \<le> a \<Longrightarrow> balances_nonneg (snd (transfer_funds f t a k r s))"
  by (auto simp: balances_nonneg_def transfer_funds_def wallet_defs split: option.splits if_splits)

lemma get_or_create_nonneg:
  "balances_nonneg s \<Longrightarrow> balances_nonneg (snd (get_or_create_wallet u s))"
  by (auto simp: balances_nonneg_def wallet_defs split: option.splits if_splits)

lemma withdraw_insufficient:
  "wallets s u = Some b \<Longrightarrow> b < a \<Longrightarrow> withdraw_funds u a s = (Failure Insufficient_funds, s)"
  by (simp add: withdraw_funds_def wallet_defs)

lemma deduct_insufficient:
  "wallets s u = Some b \<Longrightarrow> b < a \<Longrightarrow>
   deduct_platform_fee u a r s = (Failure Insufficient_funds_for_platform_fee, s)"
  by (simp add: deduct_platform_fee_def wallet_defs)

lemma transfer_insufficient:
  "wallets s f = Some b \<Longrightarrow> b < a \<Longrightarrow>
   fst (transfer_funds f t a k r s) = Failure Insufficient_funds
   \<and> (\<forall>u. get_wallet_balance u (snd (transfer_funds f t a k r s)) = get_wallet_balance u s)
   \<and> (\<forall>u. u \<noteq> t \<longrightarrow> wallets (snd (transfer_funds f t a k r s)) u = wallets s u)
   \<and> transactions (snd (transfer_funds f t a k r s)) = transactions s"
  by (auto simp: transfer_funds_def wallet_defs split: option.splits)

text \<open>
  Claim C4, as amended. From a store in which every wallet balance is non-negative,
  each of \<open>deposit_funds\<close>, \<open>withdraw_funds\<close>, \<open>transfer_funds\<close>, \<open>deduct_platform_fee\<close>
  and \<open>get_or_create_wallet\<close>, called with a non-negative amount, leaves every wallet
  balance non-negative. Whatever the amount, when the source wallet exists and holds
  less than the amount, \<open>withdraw_funds\<close> and \<open>deduct_platform_fee\<close> fail with their
  insufficient-funds message and leave the store as it was, and \<open>transfer_funds\<close> fails
  with \<open>Insufficient funds\<close>, appends nothing to the ledger and leaves every user's
  balance as it was (the receiver's wallet, when it was absent, now exists with balance 0).
\<close>

theorem wallet_ops_keep_balances_nonneg:
  assumes "balances_nonneg s"
  shows "(0 \<le> wallet_op_amount op \<longrightarrow> balances_nonneg (run_wallet_op op s))
       \<and> (\<forall>b. wallets s u = Some b \<and> b < a \<longrightarrow>
              withdraw_funds u a s = (Failure Insufficient_funds, s)
            \<and> deduct_platform_fee u a r s = (Failure Insufficient_funds_for_platform_fee, s)
            \<and> fst (transfer_funds u t a k r s) = Failure Insufficient_funds
            \<and> (\<forall>v. get_wallet_balance v (snd (transfer_funds u t a k r s)) = get_wallet_balance v s)
            \<and> (\<forall>v. v \<noteq> t \<longrightarrow> wallets (snd (transfer_funds u t a k r s)) v = wallets s v)
            \<and> transactions (snd (transfer_funds u t a k r s)) = transactions s)"
proof -
  have "balances_nonneg (run_wallet_op op s)" if "0 \<le> wallet_op_amount op"
    using assms that
    by (cases op)
       (simp_all add: deposit_nonneg withdraw_nonneg deduct_nonneg transfer_nonneg
          get_or_create_nonneg)
  moreover have "withdraw_funds u a s = (Failure Insufficient_funds, s)
            \<and> deduct_platform_fee u a r s = (Failure Insufficient_funds_for_platform_fee, s)
            \<and> fst (transfer_funds u t a k r s) = Failure Insufficient_funds
            \<and> (\<forall>v. get_wallet_balance v (snd (transfer_funds u t a k r s)) = get_wallet_balance v s)
            \<and> (\<forall>v. v \<noteq> t \<longrightarrow> wallets (snd (transfer_funds u t a k r s)) v = wallets s v)
            \<and> transactions (snd (transfer_funds u t a k r s)) = transactions s"
    if "wallets s u = Some b" "b < a" for b
    using that withdraw_insufficient [OF that] deduct_insufficient [OF that]
      transfer_insufficient [OF that]
    by simp
  ultimately show ?thesis by blast
qed

theorem wallet_ops_keep_balances_nonneg_witness:
  "balances_nonneg ledger_db
   \<and> balances_nonneg (run_wallet_op (Transfer 5 6 30 LOAN_FUNDING None) ledger_db)
   \<and> withdraw_funds 5 200 ledger_db = (Failure Insufficient_funds, ledger_db)
   \<and> deduct_platform_fee 5 200 None ledger_db
       = (Failure Insufficient_funds_for_platform_fee, ledger_db)
   \<and> fst (transfer_funds 5 6 200 LOAN_FUNDING None ledger_db) = Failure Insufficient_funds
   \<and> get_wallet_balance 6 (snd (transfer_funds 5 6 200 LOAN_FUNDING None ledger_db)) = 0
   \<and> get_wallet_balance 5 (snd (transfer_funds 5 6 200 LOAN_FUNDING None ledger_db)) = 100"
proof -
  have inv: "balances_nonneg ledger_db"
    by (simp add: balances_nonneg_def ledger_db_def empty_db_def)
  have amt: "0 \<le> wallet_op_amount (Transfer 5 6 30 LOAN_FUNDING None)" by simp
  have src: "wallets ledger_db 5 = Some 100 \<and> (100::rat) < 200"
    by (simp add: ledger_db_def empty_db_def)
  have bal: "get_wallet_balance 6 ledger_db = 0" "get_wallet_balance 5 ledger_db = 100"
    by (simp_all add: wallet_defs ledger_db_def empty_db_def)
  from wallet_ops_keep_balances_nonneg
         [OF inv, where op = "Transfer 5 6 30 LOAN_FUNDING None" and u = 5 and a = 200
            and r = None and t = 6 and k = LOAN_FUNDING]
       inv amt src bal
  show ?thesis by simp
qed

text \<open>
  Claim C4 as stated fails for a negative amount: the services do not look at the sign
  (the serializers of the HTTP layer do), and a deposit of \<open>-1\<close> into a fresh wallet
  leaves the balance at \<open>-1\<close>.
\<close>

theorem negative_deposit_counterexample:
  "balances_nonneg empty_db
   \<and> wallets (run_wallet_op (Deposit 5 (- 1)) empty_db) 5 = Some (- 1)
   \<and> \<not> balances_nonneg (run_wallet_op (Deposit 5 (- 1)) empty_db)"
  by (simp add: balances_nonneg_def deposit_funds_def wallet_defs empty_db_def)

section \<open>Properties of the amortization\<close>





lemma monthly_payment_fields:
  "monthly_payment l
     = monthly_payment (loan_request 0 (amount l) (term_months l) (annual_interest_rate l))"
  by (simp add: monthly_payment_def loan_request_def Let_def)

lemma monthly_payment_example:
  "monthly_payment (loan_request 0 1000 6 12) = Inr (17255 / 100)"
  by code_simp




section \<open>Properties of the offer book\<close>

lemmas loan_repo_defs = get_loan_by_id_def update_loan_def repo_create_loan_def
  repo_create_offer_def get_offer_by_id_def repo_accept_offer_def check_existing_offer_def
  Let_def










section \<open>Properties of the overdue sweep\<close>

lemma fold_save_status_overdue_other:
  "wallets (fold save_status_overdue xs s) = wallets s
   \<and> transactions (fold save_status_overdue xs s) = transactions s
   \<and> loans (fold save_status_overdue xs s) = loans s
   \<and> offers (fold save_status_overdue xs s) = offers s
   \<and> length (payments (fold save_status_overdue xs s)) = length (payments s)"
  by (induction xs arbitrary: s) (simp_all add: save_status_overdue_def)

lemma fold_save_status_overdue_nth:
  assumes "k < length (payments s)"
  shows "payments (fold save_status_overdue xs s) ! k
           = (if k \<in> fst ` set xs then (payments s ! k)\<lparr>payment_status := OVERDUE\<rparr>
              else payments s ! k)"
  using assms
proof (induction xs arbitrary: s)
  case Nil
  then show ?case by simp
next
  case (Cons x xs)
  have len: "k < length (payments (save_status_overdue x s))"
    using Cons.prems by (simp add: save_status_overdue_def)
  have nth: "payments (save_status_overdue x s) ! k
               = (if k = fst x then (payments s ! k)\<lparr>payment_status := OVERDUE\<rparr>
                  else payments s ! k)"
    using Cons.prems by (simp add: save_status_overdue_def nth_list_update)
  show ?case
    using Cons.IH [OF len] nth by auto
qed

lemma overdue_payments_indices:
  "k \<in> fst ` set (overdue_payments today s)
     \<longleftrightarrow> k < length (payments s) \<and> payment_status (payments s ! k) = PENDING
         \<and> date_less (due_date (payments s ! k)) today"
  by (force simp: overdue_payments_def in_set_enumerate_eq image_iff)

lemma map_snd_filter:
  "map snd (filter (\<lambda>ip. P (snd ip)) xs) = filter P (map snd xs)"
  by (induction xs) simp_all

lemma length_overdue_payments:
  "length (overdue_payments today s)
     = length (filter (\<lambda>p. payment_status p = PENDING \<and> date_less (due_date p) today)
                 (payments s))"
proof -
  have "map snd (overdue_payments today s)
          = filter (\<lambda>p. payment_status p = PENDING \<and> date_less (due_date p) today)
              (map snd (enumerate 0 (payments s)))"
    unfolding overdue_payments_def by (rule map_snd_filter)
  then have "length (map snd (overdue_payments today s))
          = length (filter (\<lambda>p. payment_status p = PENDING \<and> date_less (due_date p) today)
              (payments s))"
    by simp
  then show ?thesis by simp
qed

lemma sweep_payments:
  "payments (snd (check_overdue_payments today s)) = map (mark_overdue today) (payments s)"
proof (rule nth_equalityI)
  show "length (payments (snd (check_overdue_payments today s)))
          = length (map (mark_overdue today) (payments s))"
    by (simp add: check_overdue_payments_def Let_def fold_save_status_overdue_other)
next
  fix k assume "k < length (payments (snd (check_overdue_payments today s)))"
  then have k: "k < length (payments s)"
    by (simp add: check_overdue_payments_def Let_def fold_save_status_overdue_other
        split: if_splits)
  show "payments (snd (check_overdue_payments today s)) ! k
          = map (mark_overdue today) (payments s) ! k"
  proof (cases "overdue_payments today s = []")
    case True
    then have "k \<notin> fst ` set (overdue_payments today s)" by simp
    then have "mark_overdue today (payments s ! k) = payments s ! k"
      using k by (simp add: overdue_payments_indices mark_overdue_def)
    then show ?thesis
      using True k by (simp add: check_overdue_payments_def)
  next
    case False
    then show ?thesis
      using k fold_save_status_overdue_nth [OF k, of "overdue_payments today s"]
      by (simp add: check_overdue_payments_def Let_def overdue_payments_indices
          mark_overdue_def)
  qed
qed

lemma sweep_other_tables:
  "wallets (snd (check_overdue_payments today s)) = wallets s
   \<and> transactions (snd (check_overdue_payments today s)) = transactions s
   \<and> loans (snd (check_overdue_payments today s)) = loans s
   \<and> offers (snd (check_overdue_payments today s)) = offers s"
  by (simp add: check_overdue_payments_def Let_def fold_save_status_overdue_other)

lemma overdue_payments_after_sweep:
  "overdue_payments today (snd (check_overdue_payments today s)) = []"
proof -
  have "\<not> (payment_status (mark_overdue today p) = PENDING
            \<and> date_less (due_date (mark_overdue today p)) today)" for p
    by (simp add: mark_overdue_def)
  then have "filter (\<lambda>p. payment_status p = PENDING \<and> date_less (due_date p) today)
               (map (mark_overdue today) (payments s)) = []"
    by (simp add: filter_empty_conv)
  then have "length (overdue_payments today (snd (check_overdue_payments today s))) = 0"
    by (simp add: length_overdue_payments sweep_payments)
  then show ?thesis by simp
qed

text \<open>
  Claim C9. The sweep turns \<open>OVERDUE\<close> exactly the payments that are \<open>PENDING\<close> and due
  before today, touches nothing else, and reports their number as found and as marked.
  A second run with the same reading of the clock, on the store the first run left,
  finds nothing: it reports zero payments found and zero marked, and leaves the store as
  it is.
\<close>

theorem overdue_sweep_idempotent:
  "payments (snd (check_overdue_payments today s)) = map (mark_overdue today) (payments s)
   \<and> wallets (snd (check_overdue_payments today s)) = wallets s
   \<and> transactions (snd (check_overdue_payments today s)) = transactions s
   \<and> loans (snd (check_overdue_payments today s)) = loans s
   \<and> offers (snd (check_overdue_payments today s)) = offers s
   \<and> overdue_payments_found (fst (check_overdue_payments today s))
       = length (filter (\<lambda>p. payment_status p = PENDING \<and> date_less (due_date p) today)
                   (payments s))
   \<and> payments_marked_overdue (fst (check_overdue_payments today s))
       = overdue_payments_found (fst (check_overdue_payments today s))
   \<and> check_overdue_payments today (snd (check_overdue_payments today s))
       = (\<lparr>overdue_payments_found = 0, payments_marked_overdue = 0,
            affected_loans = None, affected_borrowers = None\<rparr>,
          snd (check_overdue_payments today s))"
proof -
  have found: "overdue_payments_found (fst (check_overdue_payments today s))
       = length (filter (\<lambda>p. payment_status p = PENDING \<and> date_less (due_date p) today)
                   (payments s))"
  proof (cases "overdue_payments today s = []")
    case True
    then show ?thesis
      using length_overdue_payments [of today s]
      by (simp add: check_overdue_payments_def)
  next
    case False
    then show ?thesis
      using length_overdue_payments [of today s]
      by (simp add: check_overdue_payments_def Let_def)
  qed
  have marked: "payments_marked_overdue (fst (check_overdue_payments today s))
       = overdue_payments_found (fst (check_overdue_payments today s))"
    by (simp add: check_overdue_payments_def Let_def)
  have again: "check_overdue_payments today (snd (check_overdue_payments today s))
       = (\<lparr>overdue_payments_found = 0, payments_marked_overdue = 0,
            affected_loans = None, affected_borrowers = None\<rparr>,
          snd (check_overdue_payments today s))"
    using overdue_payments_after_sweep [of today s]
    by (simp add: check_overdue_payments_def [of today "snd (check_overdue_payments today s)"])
  show ?thesis
    using sweep_payments sweep_other_tables found marked again by simp
qed

theorem overdue_sweep_idempotent_witness:
  "map payment_status (payments (snd (check_overdue_payments (Date 2024 4 1) sweep_db)))
     = [PAID, OVERDUE, PENDING]
   \<and> overdue_payments_found (fst (check_overdue_payments (Date 2024 4 1) sweep_db)) = 1
   \<and> payments_marked_overdue (fst (check_overdue_payments (Date 2024 4 1) sweep_db)) = 1
   \<and> overdue_payments_found
        (fst (check_overdue_payments (Date 2024 4 1)
               (snd (check_overdue_payments (Date 2024 4 1) sweep_db)))) = 0
   \<and> payments_marked_overdue
        (fst (check_overdue_payments (Date 2024 4 1)
               (snd (check_overdue_payments (Date 2024 4 1) sweep_db)))) = 0
   \<and> snd (check_overdue_payments (Date 2024 4 1)
               (snd (check_overdue_payments (Date 2024 4 1) sweep_db)))
       = snd (check_overdue_payments (Date 2024 4 1) sweep_db)"
  using overdue_sweep_idempotent [of "Date 2024 4 1" sweep_db]
  by (simp add: sweep_db_def empty_db_def installment_def mark_overdue_def)

section \<open>Properties of the payment orchestration\<close>

lemma transfer_funds_tables:
  assumes "transfer_funds f t a k r s = (res, s1)"
  shows "loans s1 = loans s \<and> offers s1 = offers s \<and> payments s1 = payments s"
  using assms
  by (auto simp: transfer_funds_def wallet_defs split: option.splits if_splits)

lemma deduct_platform_fee_tables:
  assumes "deduct_platform_fee u a r s = (res, s1)"
  shows "loans s1 = loans s \<and> offers s1 = offers s \<and> payments s1 = payments s"
  using assms
  by (auto simp: deduct_platform_fee_def wallet_defs split: option.splits if_splits)

lemma length_filter_eq_length_iff:
  "length (filter Q ys) = length ys \<longleftrightarrow> (\<forall>y\<in>set ys. Q y)"
proof (induction ys)
  case Nil
  then show ?case by simp
next
  case (Cons y ys)
  have "length (filter Q ys) \<le> length ys" by (rule length_filter_le)
  then have "length (filter Q ys) \<noteq> Suc (length ys)" by linarith
  then show ?case using Cons.IH by auto
qed

lemma all_paid_iff:
  "all_paid (get_all_payments_for_loan_status i s)
     \<longleftrightarrow> (\<exists>p\<in>set (payments s). payment_loan p = i)
         \<and> (\<forall>p\<in>set (payments s). payment_loan p = i \<longrightarrow> payment_status p = PAID)"
proof -
  let ?ps = "filter (\<lambda>p. payment_loan p = i) (payments s)"
  have "all_paid (get_all_payments_for_loan_status i s)
          \<longleftrightarrow> length (filter (\<lambda>p. payment_status p = PAID) ?ps) = length ?ps \<and> ?ps \<noteq> []"
    by (simp add: get_all_payments_for_loan_status_def Let_def)
  also have "\<dots> \<longleftrightarrow> (\<forall>p\<in>set ?ps. payment_status p = PAID) \<and> ?ps \<noteq> []"
    by (simp only: length_filter_eq_length_iff)
  also have "\<dots> \<longleftrightarrow> (\<exists>p\<in>set (payments s). payment_loan p = i)
         \<and> (\<forall>p\<in>set (payments s). payment_loan p = i \<longrightarrow> payment_status p = PAID)"
    by (auto simp: filter_empty_conv)
  finally show ?thesis .
qed

lemma ball_enumerate:
  "(\<forall>ip\<in>set (enumerate n xs). Q (snd ip)) \<longleftrightarrow> (\<forall>x\<in>set xs. Q x)"
proof -
  have "snd ` set (enumerate n xs) = set xs"
    by (simp only: set_map [symmetric] map_snd_enumerate)
  then show ?thesis by (metis (no_types, lifting) image_iff imageI)
qed

lemma next_pending_None:
  "get_next_pending_payment i s = None
     \<longleftrightarrow> (\<forall>p\<in>set (payments s). payment_loan p = i \<longrightarrow> payment_status p \<noteq> PENDING)"
proof -
  let ?P = "\<lambda>ip::nat \<times> payment. payment_loan (snd ip) = i \<and> payment_status (snd ip) = PENDING"
  let ?xs = "filter ?P (enumerate 0 (payments s))"
  have "get_next_pending_payment i s = None
          \<longleftrightarrow> sort_key (\<lambda>ip. payment_number (snd ip)) ?xs = []"
    by (simp add: get_next_pending_payment_def split: list.splits)
  also have "\<dots> \<longleftrightarrow> set (sort_key (\<lambda>ip. payment_number (snd ip)) ?xs) = {}"
    by (simp only: set_empty)
  also have "\<dots> \<longleftrightarrow> set ?xs = {}"
    by (simp only: set_sort)
  also have "\<dots> \<longleftrightarrow> (\<forall>ip\<in>set (enumerate 0 (payments s)). \<not> ?P ip)"
    by (simp only: set_empty filter_empty_conv)
  also have "\<dots> \<longleftrightarrow> (\<forall>p\<in>set (payments s).
                    \<not> (payment_loan p = i \<and> payment_status p = PENDING))"
    by (rule ball_enumerate)
  finally show ?thesis by blast
qed

lemma next_pending_Some:
  assumes "get_next_pending_payment i s = Some (k, p)"
  shows "k < length (payments s) \<and> p = payments s ! k
       \<and> payment_loan p = i \<and> payment_status p = PENDING
       \<and> (\<forall>j < length (payments s).
             payment_loan (payments s ! j) = i \<and> payment_status (payments s ! j) = PENDING
             \<longrightarrow> payment_number p \<le> payment_number (payments s ! j))"
proof -
  let ?f = "\<lambda>ip::nat \<times> payment. payment_number (snd ip)"
  let ?xs = "filter (\<lambda>ip. payment_loan (snd ip) = i \<and> payment_status (snd ip) = PENDING)
               (enumerate 0 (payments s))"
  obtain rest where sorted_eq: "sort_key ?f ?xs = (k, p) # rest"
    using assms by (auto simp: get_next_pending_payment_def split: list.splits)
  have "(k, p) \<in> set (sort_key ?f ?xs)"
    unfolding sorted_eq by simp
  then have mem: "(k, p) \<in> set ?xs" by simp
  have "sorted (map ?f (sort_key ?f ?xs))" by (rule sorted_sort_key)
  then have least: "\<forall>y\<in>set (sort_key ?f ?xs). ?f (k, p) \<le> ?f y"
    unfolding sorted_eq by auto
  have "payment_number p \<le> payment_number (payments s ! j)"
    if "j < length (payments s)" "payment_loan (payments s ! j) = i"
      "payment_status (payments s ! j) = PENDING" for j
  proof -
    have "(j, payments s ! j) \<in> set ?xs"
      using that by (simp add: in_set_enumerate_eq)
    then have "(j, payments s ! j) \<in> set (sort_key ?f ?xs)" by simp
    with least show ?thesis by fastforce
  qed
  then show ?thesis
    using mem by (auto simp: in_set_enumerate_eq)
qed

lemma all_paid_cong:
  "payments s = payments t
     \<Longrightarrow> get_all_payments_for_loan_status i s = get_all_payments_for_loan_status i t"
  by (simp add: get_all_payments_for_loan_status_def)

lemma make_payment_success:
  assumes "make_payment now i b s = (Success ((k, p'), c), s')"
  shows "i < length (loans s) \<and> status (loans s ! i) = FUNDED \<and> borrower (loans s ! i) = b
       \<and> get_next_pending_payment i s = Some (k, payments s ! k)
       \<and> p' = (payments s ! k)\<lparr>payment_status := PAID, paid_at := Some now\<rparr>
       \<and> payments s' = (payments s)[k := p']
       \<and> offers s' = offers s
       \<and> c = all_paid (get_all_payments_for_loan_status i s')
       \<and> loans s' = (if c then (loans s)[i := (loans s ! i)\<lparr>status := COMPLETED\<rparr>]
                     else loans s)"
proof -
  from assms have i: "i < length (loans s)"
    by (auto simp: make_payment_def get_loan_by_id_def split: if_splits)
  from assms i have st: "status (loans s ! i) = FUNDED" and bo: "borrower (loans s ! i) = b"
    by (auto simp: make_payment_def get_loan_by_id_def split: if_splits)
  from assms i st bo obtain np where np: "get_next_pending_payment i s = Some np"
    by (auto simp: make_payment_def get_loan_by_id_def split: option.splits)
  obtain k0 p0 where np_eq: "np = (k0, p0)" by (cases np)
  note sel = next_pending_Some [OF np [unfolded np_eq]]
  from assms i st bo np obtain lender_id where le: "lender (loans s ! i) = Some lender_id"
    by (auto simp: make_payment_def get_loan_by_id_def split: option.splits if_splits)
  obtain tr s1 where tf: "transfer_funds b lender_id (payment_amount (snd np)) LOAN_PAYMENT
                            (Some (payment_reference (fst np))) s = (tr, s1)"
    by (cases "transfer_funds b lender_id (payment_amount (snd np)) LOAN_PAYMENT
                 (Some (payment_reference (fst np))) s")
  note tabs = transfer_funds_tables [OF tf]
  let ?s2 = "snd (mark_payment_as_paid np now s1)"
  let ?c = "all_paid (get_all_payments_for_loan_status i ?s2)"
  from assms i st bo np le tf
  have res: "k = k0" "p' = p0\<lparr>payment_status := PAID, paid_at := Some now\<rparr>" "c = ?c"
    "s' = (if ?c then snd (update_loan (i, loans s ! i) (\<lambda>l. l\<lparr>status := COMPLETED\<rparr>) ?s2)
           else ?s2)"
    by (auto simp: make_payment_def get_loan_by_id_def mark_payment_as_paid_def np_eq Let_def
        split: if_splits outcome.splits)
  have pay2: "payments ?s2 = (payments s)[k := p']"
    using tabs sel res(1,2) by (simp add: mark_payment_as_paid_def np_eq Let_def)
  have other2: "loans ?s2 = loans s" "offers ?s2 = offers s"
    using tabs by (simp_all add: mark_payment_as_paid_def Let_def)
  have pay': "payments s' = payments ?s2" and off': "offers s' = offers s"
    and loans': "loans s' = (if ?c then (loans s)[i := (loans s ! i)\<lparr>status := COMPLETED\<rparr>]
                            else loans s)"
    using res(4) other2 by (simp_all add: update_loan_def Let_def)
  have "c = all_paid (get_all_payments_for_loan_status i s')"
    using res(3) all_paid_cong [OF pay', of i] by simp
  then show ?thesis
    using i st bo np np_eq sel res(1,2,3) pay2 pay' off' loans' by simp
qed

lemma make_payment_no_pending:
  assumes "i < length (loans s)" "status (loans s ! i) = FUNDED" "borrower (loans s ! i) = b"
    and "\<forall>p\<in>set (payments s). payment_loan p = i \<longrightarrow> payment_status p \<noteq> PENDING"
  shows "make_payment now i b s = (Failure No_pending_payments_found, s)"
proof -
  have "get_next_pending_payment i s = None"
    using assms(4) by (simp only: next_pending_None)
  then show ?thesis
    using assms(1-3) by (simp add: make_payment_def get_loan_by_id_def)
qed

text \<open>
  Claim C3. For a \<open>FUNDED\<close> loan of the calling borrower: a successful \<open>make_payment\<close>
  has taken a \<open>PENDING\<close> payment of the loan whose \<open>payment_number\<close> is least among the
  loan's \<open>PENDING\<close> payments; that row is now \<open>PAID\<close> with \<open>paid_at\<close> set to the time of
  the call, and no other payment row changed; the returned flag is true exactly when
  every payment of the loan is \<open>PAID\<close> afterwards, and then the loan's status is
  \<open>COMPLETED\<close> (otherwise the loan table is as before). When the loan has no
  \<open>PENDING\<close> payment the call fails with \<open>No pending payments found\<close> and the store is
  unchanged.
\<close>

theorem make_payment_earliest_pending:
  assumes "i < length (loans s)" and "status (loans s ! i) = FUNDED"
    and "borrower (loans s ! i) = b"
  shows "(\<forall>k p' c s'. make_payment now i b s = (Success ((k, p'), c), s') \<longrightarrow>
            k < length (payments s)
          \<and> payment_loan (payments s ! k) = i
          \<and> payment_status (payments s ! k) = PENDING
          \<and> (\<forall>j < length (payments s).
                payment_loan (payments s ! j) = i \<and> payment_status (payments s ! j) = PENDING
                \<longrightarrow> payment_number (payments s ! k) \<le> payment_number (payments s ! j))
          \<and> p' = (payments s ! k)\<lparr>payment_status := PAID, paid_at := Some now\<rparr>
          \<and> payments s' = (payments s)[k := p']
          \<and> payment_status (payments s' ! k) = PAID
          \<and> paid_at (payments s' ! k) = Some now
          \<and> (c \<longleftrightarrow> (\<forall>p\<in>set (payments s'). payment_loan p = i \<longrightarrow> payment_status p = PAID))
          \<and> (c \<longrightarrow> status (loans s' ! i) = COMPLETED)
          \<and> (\<not> c \<longrightarrow> loans s' = loans s))
       \<and> ((\<forall>p\<in>set (payments s). payment_loan p = i \<longrightarrow> payment_status p \<noteq> PENDING) \<longrightarrow>
            make_payment now i b s = (Failure No_pending_payments_found, s))"
proof (intro conjI allI impI)
  assume "\<forall>p\<in>set (payments s). payment_loan p = i \<longrightarrow> payment_status p \<noteq> PENDING"
  then show "make_payment now i b s = (Failure No_pending_payments_found, s)"
    using assms by (intro make_payment_no_pending)
next
  fix k p' c s'
  assume run: "make_payment now i b s = (Success ((k, p'), c), s')"
  note facts = make_payment_success [OF run]
  from facts have np: "get_next_pending_payment i s = Some (k, payments s ! k)" by blast
  note sel = next_pending_Some [OF np]
  from facts have p': "p' = (payments s ! k)\<lparr>payment_status := PAID, paid_at := Some now\<rparr>"
    and pay: "payments s' = (payments s)[k := p']"
    and c: "c = all_paid (get_all_payments_for_loan_status i s')"
    and lo: "loans s' = (if c then (loans s)[i := (loans s ! i)\<lparr>status := COMPLETED\<rparr>]
                        else loans s)"
    by blast+
  from sel have k: "k < length (payments s)" by blast
  have row: "payments s' ! k = p'" using pay k by simp
  have "p' \<in> set (payments s')" using pay k by (simp add: set_update_memI)
  moreover have "payment_loan p' = i" using p' sel by simp
  ultimately have ex: "\<exists>p\<in>set (payments s'). payment_loan p = i" by blast
  show "k < length (payments s)" by (rule k)
  show "payment_loan (payments s ! k) = i" using sel by blast
  show "payment_status (payments s ! k) = PENDING" using sel by blast
  show "payment_number (payments s ! k) \<le> payment_number (payments s ! j)"
    if "j < length (payments s)"
      "payment_loan (payments s ! j) = i \<and> payment_status (payments s ! j) = PENDING" for j
    using sel that by blast
  show "p' = (payments s ! k)\<lparr>payment_status := PAID, paid_at := Some now\<rparr>" by (rule p')
  show "payments s' = (payments s)[k := p']" by (rule pay)
  show "payment_status (payments s' ! k) = PAID" using row p' by simp
  show "paid_at (payments s' ! k) = Some now" using row p' by simp
  show "c \<longleftrightarrow> (\<forall>p\<in>set (payments s'). payment_loan p = i \<longrightarrow> payment_status p = PAID)"
    using c ex by (simp add: all_paid_iff)
  show "status (loans s' ! i) = COMPLETED" if c
    using that lo assms(1) by simp
  show "loans s' = loans s" if "\<not> c"
    using that lo by simp
qed
lemmas payment_defs = make_payment_def get_loan_by_id_def get_next_pending_payment_def
  check_balance_def transfer_funds_def mark_payment_as_paid_def
  get_all_payments_for_loan_status_def update_loan_def

lemmas example_defs = pay_db_def late_db_def last_db_def sweep_db_def empty_db_def
  installment_def loan_request_def noon_def

theorem make_payment_earliest_pending_witness:
  "succeeded (fst (make_payment noon 0 5 pay_db))
   \<and> map payment_status (payments (snd (make_payment noon 0 5 pay_db))) = [PAID, PAID, PENDING]
   \<and> paid_at (payments (snd (make_payment noon 0 5 pay_db)) ! 1) = Some noon
   \<and> status (loans (snd (make_payment noon 0 5 pay_db)) ! 0) = FUNDED
   \<and> fst (make_payment noon 0 5 last_db)
       = Success ((2, (installment 0 3 (Date 2024 4 15) 100 PENDING)
                        \<lparr>payment_status := PAID, paid_at := Some noon\<rparr>), True)
   \<and> status (loans (snd (make_payment noon 0 5 last_db)) ! 0) = COMPLETED
   \<and> make_payment noon 0 5 late_db = (Failure No_pending_payments_found, late_db)"
proof -
  have funded: "0 < length (loans pay_db)" "status (loans pay_db ! 0) = FUNDED"
    "borrower (loans pay_db ! 0) = 5"
    "0 < length (loans last_db)" "status (loans last_db ! 0) = FUNDED"
    "borrower (loans last_db ! 0) = 5"
    "0 < length (loans late_db)" "status (loans late_db ! 0) = FUNDED"
    "borrower (loans late_db ! 0) = 5"
    by (simp_all add: example_defs)
  have first: "fst (make_payment noon 0 5 pay_db)
       = Success ((1, (installment 0 2 (Date 2024 3 15) 100 PENDING)
                        \<lparr>payment_status := PAID, paid_at := Some noon\<rparr>), False)"
    by (simp add: payment_defs wallet_defs example_defs)
  have final: "fst (make_payment noon 0 5 last_db)
       = Success ((2, (installment 0 3 (Date 2024 4 15) 100 PENDING)
                        \<lparr>payment_status := PAID, paid_at := Some noon\<rparr>), True)"
    by (simp add: payment_defs wallet_defs example_defs)
  have none: "\<forall>p\<in>set (payments late_db). payment_loan p = 0 \<longrightarrow> payment_status p \<noteq> PENDING"
    by (simp add: example_defs)
  have rows: "payments pay_db ! 1 = installment 0 2 (Date 2024 3 15) 100 PENDING"
    "payments pay_db = [installment 0 1 (Date 2024 2 15) 100 PAID,
                        installment 0 2 (Date 2024 3 15) 100 PENDING,
                        installment 0 3 (Date 2024 4 15) 100 PENDING]"
    by (simp_all add: example_defs)
  obtain s1 where run1: "make_payment noon 0 5 pay_db
       = (Success ((1, (installment 0 2 (Date 2024 3 15) 100 PENDING)
                        \<lparr>payment_status := PAID, paid_at := Some noon\<rparr>), False), s1)"
    using first by (cases "make_payment noon 0 5 pay_db") simp
  obtain s2 where run2: "make_payment noon 0 5 last_db
       = (Success ((2, (installment 0 3 (Date 2024 4 15) 100 PENDING)
                        \<lparr>payment_status := PAID, paid_at := Some noon\<rparr>), True), s2)"
    using final by (cases "make_payment noon 0 5 last_db") simp
  from make_payment_earliest_pending [OF funded(1-3), of noon] run1
  have a: "payments s1 = (payments pay_db)[1 := (installment 0 2 (Date 2024 3 15) 100 PENDING)
                        \<lparr>payment_status := PAID, paid_at := Some noon\<rparr>]"
    "loans s1 = loans pay_db"
    by blast+
  from make_payment_earliest_pending [OF funded(4-6), of noon] run2
  have b: "status (loans s2 ! 0) = COMPLETED"
    by blast
  from make_payment_earliest_pending [OF funded(7-9), of noon] none
  have c: "make_payment noon 0 5 late_db = (Failure No_pending_payments_found, late_db)"
    by blast
  show ?thesis
    using a b c funded(2) by (simp add: run1 run2 rows installment_def)
qed

section \<open>Properties of the funding orchestration\<close>

lemma check_balance_iff:
  "check_balance u a s \<longleftrightarrow> (\<exists>bal. wallets s u = Some bal \<and> a \<le> bal)"
  by (auto simp: check_balance_def wallet_defs split: option.splits)

lemma transfer_funds_sufficient:
  assumes "wallets s f = Some bal" and "a \<le> bal" and "f \<noteq> t"
  shows "\<exists>res. transfer_funds f t a k r s
           = (Success res,
              s\<lparr>wallets := (wallets s)(f \<mapsto> bal - a, t \<mapsto> get_wallet_balance t s + a),
                transactions := transactions s @
                  [\<lparr>entry_wallet = f, transaction_type = k, entry_amount = - a, reference_id = r\<rparr>,
                   \<lparr>entry_wallet = t, transaction_type = k, entry_amount = a, reference_id = r\<rparr>]\<rparr>)"
  using assms
  by (auto simp: transfer_funds_def wallet_defs fun_upd_twist split: option.splits)

lemma deduct_platform_fee_sufficient:
  assumes "wallets s u = Some bal" and "a \<le> bal"
  shows "\<exists>res. deduct_platform_fee u a r s
           = (Success res,
              s\<lparr>wallets := (wallets s)(u \<mapsto> bal - a),
                transactions := transactions s @
                  [\<lparr>entry_wallet = u, transaction_type = PLATFORM_FEE, entry_amount = - a,
                    reference_id = r\<rparr>]\<rparr>)"
  using assms
  by (auto simp: deduct_platform_fee_def wallet_defs split: option.splits)


lemma fund_loan_passed:
  assumes i: "i < length (loans s)" and le: "lender (loans s ! i) = Some u"
    and st: "status (loans s ! i) = PENDING_FUNDING"
    and bal: "wallets s u = Some bal" "amount (loans s ! i) + fee \<le> bal"
    and fee: "0 \<le> fee" and other: "borrower (loans s ! i) \<noteq> u"
  shows "fund_loan fee now today i u s =
     (case generate_payment_schedule
             (i, (loans s ! i)\<lparr>status := FUNDED, funded_at := Some now\<rparr>) today
             (s\<lparr>wallets := (wallets s)
                    (u \<mapsto> bal - amount (loans s ! i) - fee,
                     borrower (loans s ! i)
                       \<mapsto> get_wallet_balance (borrower (loans s ! i)) s + amount (loans s ! i)),
                transactions := transactions s @
                  [\<lparr>entry_wallet = u, transaction_type = LOAN_FUNDING,
                    entry_amount = - amount (loans s ! i),
                    reference_id = Some (loan_reference i)\<rparr>,
                   \<lparr>entry_wallet = borrower (loans s ! i), transaction_type = LOAN_FUNDING,
                    entry_amount = amount (loans s ! i),
                    reference_id = Some (loan_reference i)\<rparr>,
                   \<lparr>entry_wallet = u, transaction_type = PLATFORM_FEE,
                    entry_amount = - fee, reference_id = Some (fee_reference i)\<rparr>],
                loans := (loans s)[i := (loans s ! i)\<lparr>status := FUNDED, funded_at := Some now\<rparr>]\<rparr>)
      of (Success _, s4) \<Rightarrow>
           (Success (i, (loans s ! i)\<lparr>status := FUNDED, funded_at := Some now\<rparr>), s4)
       | (Failure e, _) \<Rightarrow> (Failure e, s)
       | (Raised x, _) \<Rightarrow> (Raised x, s))"
proof -
  let ?l = "loans s ! i"
  let ?b = "borrower ?l"
  let ?a = "amount ?l"
  have enough: "?a \<le> bal" using bal(2) fee by linarith
  have chk: "check_balance u (?a + fee) s"
    using bal by (simp add: check_balance_iff)
  let ?s1 = "s\<lparr>wallets := (wallets s)(u \<mapsto> bal - ?a, ?b \<mapsto> get_wallet_balance ?b s + ?a),
                transactions := transactions s @
                  [\<lparr>entry_wallet = u, transaction_type = LOAN_FUNDING, entry_amount = - ?a,
                    reference_id = Some (loan_reference i)\<rparr>,
                   \<lparr>entry_wallet = ?b, transaction_type = LOAN_FUNDING, entry_amount = ?a,
                    reference_id = Some (loan_reference i)\<rparr>]\<rparr>"
  obtain r1 where t1: "transfer_funds u ?b ?a LOAN_FUNDING (Some (loan_reference i)) s
                         = (Success r1, ?s1)"
    using transfer_funds_sufficient [OF bal(1) enough other [symmetric]] by blast
  have w1: "wallets ?s1 u = Some (bal - ?a)" using other by simp
  have enough_fee: "fee \<le> bal - ?a" using bal(2) by linarith
  let ?s2 = "?s1\<lparr>wallets := (wallets ?s1)(u \<mapsto> bal - ?a - fee),
                transactions := transactions ?s1 @
                  [\<lparr>entry_wallet = u, transaction_type = PLATFORM_FEE, entry_amount = - fee,
                    reference_id = Some (fee_reference i)\<rparr>]\<rparr>"
  obtain r2 where t2: "deduct_platform_fee u fee (Some (fee_reference i)) ?s1 = (Success r2, ?s2)"
    using deduct_platform_fee_sufficient [OF w1 enough_fee] by blast
  have s2_eq: "?s2\<lparr>loans := (loans ?s2)[i := ?l\<lparr>status := FUNDED, funded_at := Some now\<rparr>]\<rparr>
      = s\<lparr>wallets := (wallets s)(u \<mapsto> bal - ?a - fee, ?b \<mapsto> get_wallet_balance ?b s + ?a),
          transactions := transactions s @
                  [\<lparr>entry_wallet = u, transaction_type = LOAN_FUNDING, entry_amount = - ?a,
                    reference_id = Some (loan_reference i)\<rparr>,
                   \<lparr>entry_wallet = ?b, transaction_type = LOAN_FUNDING, entry_amount = ?a,
                    reference_id = Some (loan_reference i)\<rparr>,
                   \<lparr>entry_wallet = u, transaction_type = PLATFORM_FEE, entry_amount = - fee,
                    reference_id = Some (fee_reference i)\<rparr>],
          loans := (loans s)[i := ?l\<lparr>status := FUNDED, funded_at := Some now\<rparr>]\<rparr>"
    using other by (simp add: fun_upd_twist)
  show ?thesis
    unfolding s2_eq [symmetric]
    using i le st chk t1 t2
    by (simp add: fund_loan_def get_loan_by_id_def update_loan_def Let_def
        del: fun_upd_apply)
qed

lemma fund_loan_rejected:
  assumes "\<not> (i < length (loans s) \<and> lender (loans s ! i) = Some u
             \<and> status (loans s ! i) = PENDING_FUNDING
             \<and> check_balance u (amount (loans s ! i) + fee) s)"
  shows "\<exists>x. fund_loan fee now today i u s = (Raised x, s)"
  using assms by (auto simp: fund_loan_def get_loan_by_id_def Let_def)


section \<open>Properties of sequences of operations\<close>

subsection \<open>The ledger\<close>

lemma transfer_sum_append:
  "transfer_sum r (xs @ ys) = transfer_sum r xs + transfer_sum r ys"
  by (simp add: transfer_sum_def)

lemma reference_sum_split:
  "reference_sum r es = transfer_sum r es + fee_sum r es"
  by (induction es) (auto simp: reference_sum_def transfer_sum_def fee_sum_def)

lemma transfer_sum_absent:
  assumes "r \<notin> set (List.map_filter reference_id es)"
  shows "transfer_sum r es = 0"
proof -
  have "e \<in> set es \<Longrightarrow> reference_id e \<noteq> Some r" for e
    using assms by (force simp: List.map_filter_def image_iff)
  then have "filter (\<lambda>e. reference_id e = Some r \<and> transaction_type e \<noteq> PLATFORM_FEE) es = []"
    by (auto simp: filter_empty_conv)
  then show ?thesis by (simp add: transfer_sum_def)
qed

lemma ledger_balanced_iff:
  "ledger_balanced s \<longleftrightarrow> (\<forall>r. transfer_sum r (transactions s) = 0)"
  using transfer_sum_absent [of _ "transactions s"]
  by (auto simp: ledger_balanced_def list_all_iff)

lemma balanced_extension_refl: "balanced_extension es es"
  by (simp add: balanced_extension_def transfer_sum_def)

lemma balanced_extension_trans:
  assumes "balanced_extension es es'" and "balanced_extension es' es''"
  shows "balanced_extension es es''"
proof -
  from assms obtain xs ys where "es' = es @ xs" "\<forall>r. transfer_sum r xs = 0"
    "es'' = es' @ ys" "\<forall>r. transfer_sum r ys = 0"
    unfolding balanced_extension_def by blast
  then have "es'' = es @ (xs @ ys)" "\<forall>r. transfer_sum r (xs @ ys) = 0"
    by (simp_all add: transfer_sum_append)
  then show ?thesis unfolding balanced_extension_def by blast
qed

lemma balanced_extension_eq: "es' = es \<Longrightarrow> balanced_extension es es'"
  by (simp add: balanced_extension_refl)

lemma deposit_extension:
  "balanced_extension (transactions s) (transactions (snd (deposit_funds u a s)))"
  by (auto simp: balanced_extension_def transfer_sum_def deposit_funds_def wallet_defs
      split: option.splits)

lemma withdraw_extension:
  "balanced_extension (transactions s) (transactions (snd (withdraw_funds u a s)))"
  by (auto simp: balanced_extension_def transfer_sum_def withdraw_funds_def wallet_defs
      split: option.splits)

lemma transfer_extension:
  "balanced_extension (transactions s) (transactions (snd (transfer_funds f t a k r s)))"
  by (auto simp: balanced_extension_def transfer_sum_def transfer_funds_def wallet_defs
      split: option.splits)

lemma deduct_extension:
  "balanced_extension (transactions s) (transactions (snd (deduct_platform_fee u a r s)))"
  by (auto simp: balanced_extension_def transfer_sum_def deduct_platform_fee_def wallet_defs
      split: option.splits)

lemma get_or_create_transactions:
  "transactions (snd (get_or_create_wallet u s)) = transactions s"
  by (simp add: wallet_defs split: option.splits)

lemma wallet_op_extension:
  "balanced_extension (transactions s) (transactions (run_wallet_op w s))"
  by (cases w)
     (simp_all add: deposit_extension withdraw_extension transfer_extension deduct_extension
        get_or_create_transactions balanced_extension_refl)

subsection \<open>What each operation can change\<close>

lemma transfer_funds_snd_tables:
  "loans (snd (transfer_funds f t a k r s)) = loans s
   \<and> offers (snd (transfer_funds f t a k r s)) = offers s
   \<and> payments (snd (transfer_funds f t a k r s)) = payments s"
  using transfer_funds_tables [of f t a k r s] by (cases "transfer_funds f t a k r s") simp

lemma deduct_platform_fee_snd_tables:
  "loans (snd (deduct_platform_fee u a r s)) = loans s
   \<and> offers (snd (deduct_platform_fee u a r s)) = offers s
   \<and> payments (snd (deduct_platform_fee u a r s)) = payments s"
  using deduct_platform_fee_tables [of u a r s] by (cases "deduct_platform_fee u a r s") simp

lemma wallet_op_tables:
  "loans (run_wallet_op w s) = loans s \<and> offers (run_wallet_op w s) = offers s
   \<and> payments (run_wallet_op w s) = payments s"
proof (cases w)
  case (Deposit u a)
  then show ?thesis by (simp add: deposit_funds_def wallet_defs split: option.splits)
next
  case (Withdraw u a)
  then show ?thesis by (simp add: withdraw_funds_def wallet_defs split: option.splits)
next
  case (Transfer f t a k r)
  then show ?thesis by (simp add: transfer_funds_snd_tables)
next
  case (Deduct_fee u a r)
  then show ?thesis by (simp add: deduct_platform_fee_snd_tables)
next
  case (Get_or_create u)
  then show ?thesis by (simp add: wallet_defs split: option.splits)
qed

lemma create_loan_effect:
  "transactions (snd (create_loan b a n rate s)) = transactions s
   \<and> payments (snd (create_loan b a n rate s)) = payments s
   \<and> offers (snd (create_loan b a n rate s)) = offers s
   \<and> (loans (snd (create_loan b a n rate s)) = loans s
        \<or> loans (snd (create_loan b a n rate s)) = loans s @ [loan_request (user_id b) a n rate])"
  by (simp add: create_loan_def repo_create_loan_def loan_request_def Let_def)

lemma create_offer_effect:
  "transactions (snd (create_offer i u rate s)) = transactions s
   \<and> payments (snd (create_offer i u rate s)) = payments s
   \<and> loans (snd (create_offer i u rate s)) = loans s"
  by (simp add: create_offer_def loan_repo_defs split: option.splits)

lemma accept_offer_effect:
  "transactions (snd (accept_offer i j b s)) = transactions s
   \<and> payments (snd (accept_offer i j b s)) = payments s
   \<and> (loans (snd (accept_offer i j b s)) = loans s
        \<or> (i < length (loans s) \<and> j < length (offers s) \<and> offer_loan (offers s ! j) = i
            \<and> loans (snd (accept_offer i j b s))
                = (loans s)[i := (loans s ! i)\<lparr>lender := Some (offer_lender (offers s ! j)),
                                                annual_interest_rate := offer_rate (offers s ! j),
                                                status := PENDING_FUNDING\<rparr>]))"
  by (auto simp: accept_offer_def accept_offer_checks_def accept_offer_writes_def loan_repo_defs
      split: option.splits)

lemma fund_loan_transactions:
  "transactions (snd (fund_loan fee now today i u s)) = transactions s
   \<or> (\<exists>b a. transactions (snd (fund_loan fee now today i u s))
              = transactions (snd (transfer_funds u b a LOAN_FUNDING (Some (loan_reference i)) s)))
   \<or> (\<exists>b a. transactions (snd (fund_loan fee now today i u s))
              = transactions (snd (deduct_platform_fee u fee (Some (fee_reference i))
                  (snd (transfer_funds u b a LOAN_FUNDING (Some (loan_reference i)) s)))))"
proof (cases "i < length (loans s) \<and> lender (loans s ! i) = Some u
             \<and> status (loans s ! i) = PENDING_FUNDING
             \<and> check_balance u (amount (loans s ! i) + fee) s")
  case False
  then obtain x where "fund_loan fee now today i u s = (Raised x, s)"
    using fund_loan_rejected by blast
  then show ?thesis by simp
next
  case True
  let ?l = "loans s ! i"
  obtain r1 s1 where t1: "transfer_funds u (borrower ?l) (amount ?l) LOAN_FUNDING
                            (Some (loan_reference i)) s = (r1, s1)"
    by (cases "transfer_funds u (borrower ?l) (amount ?l) LOAN_FUNDING
                 (Some (loan_reference i)) s")
  obtain r2 s2 where t2: "deduct_platform_fee u fee (Some (fee_reference i)) s1 = (r2, s2)"
    by (cases "deduct_platform_fee u fee (Some (fee_reference i)) s1")
  have "transactions (snd (fund_loan fee now today i u s)) = transactions s
        \<or> transactions (snd (fund_loan fee now today i u s)) = transactions s1
        \<or> transactions (snd (fund_loan fee now today i u s)) = transactions s2"
    using True t1 t2
    by (auto simp: fund_loan_def get_loan_by_id_def update_loan_def
        generate_payment_schedule_def Let_def split: outcome.splits sum.splits if_splits)
  moreover have "s1 = snd (transfer_funds u (borrower ?l) (amount ?l) LOAN_FUNDING
                            (Some (loan_reference i)) s)"
    using t1 by simp
  moreover have "s2 = snd (deduct_platform_fee u fee (Some (fee_reference i)) s1)"
    using t2 by simp
  ultimately show ?thesis by metis
qed

lemma fund_loan_tables:
  "offers (snd (fund_loan fee now today i u s)) = offers s
   \<and> (loans (snd (fund_loan fee now today i u s)) = loans s
        \<or> loans (snd (fund_loan fee now today i u s))
             = (loans s)[i := (loans s ! i)\<lparr>status := FUNDED, funded_at := Some now\<rparr>])
   \<and> (\<exists>rows. payments (snd (fund_loan fee now today i u s)) = payments s @ rows
         \<and> list_all (\<lambda>p. payment_status p = PENDING) rows)"
proof (cases "i < length (loans s) \<and> lender (loans s ! i) = Some u
             \<and> status (loans s ! i) = PENDING_FUNDING
             \<and> check_balance u (amount (loans s ! i) + fee) s")
  case False
  then obtain x where "fund_loan fee now today i u s = (Raised x, s)"
    using fund_loan_rejected by blast
  then show ?thesis by simp
next
  case True
  let ?l = "loans s ! i"
  obtain r1 s1 where t1: "transfer_funds u (borrower ?l) (amount ?l) LOAN_FUNDING
                            (Some (loan_reference i)) s = (r1, s1)"
    by (cases "transfer_funds u (borrower ?l) (amount ?l) LOAN_FUNDING
                 (Some (loan_reference i)) s")
  obtain r2 s2 where t2: "deduct_platform_fee u fee (Some (fee_reference i)) s1 = (r2, s2)"
    by (cases "deduct_platform_fee u fee (Some (fee_reference i)) s1")
  note tabs = transfer_funds_tables [OF t1] deduct_platform_fee_tables [OF t2]
  have rows: "list_all (\<lambda>p. payment_status p = PENDING) (schedule_rows i l m d)" for l m d
    by (simp add: schedule_rows_def list_all_iff)
  show ?thesis
    using True t1 t2 tabs rows
    by (auto simp: fund_loan_def get_loan_by_id_def update_loan_def
        generate_payment_schedule_def Let_def split: outcome.splits sum.splits if_splits)
qed

lemma make_payment_effect:
  "(\<exists>k p' c. make_payment now i b s = (Success ((k, p'), c), snd (make_payment now i b s))
      \<and> (\<exists>t a r. transactions (snd (make_payment now i b s))
                    = transactions (snd (transfer_funds b t a LOAN_PAYMENT (Some r) s))))
   \<or> (loans (snd (make_payment now i b s)) = loans s
       \<and> payments (snd (make_payment now i b s)) = payments s
       \<and> offers (snd (make_payment now i b s)) = offers s
       \<and> (transactions (snd (make_payment now i b s)) = transactions s
           \<or> (\<exists>t a r. transactions (snd (make_payment now i b s))
                    = transactions (snd (transfer_funds b t a LOAN_PAYMENT (Some r) s)))))"
proof (cases "get_loan_by_id i s")
  case None
  then show ?thesis by (simp add: make_payment_def)
next
  case (Some lo)
  show ?thesis
  proof (cases "get_next_pending_payment (fst lo) s")
    case None
    then show ?thesis using Some by (simp add: make_payment_def)
  next
    case np: (Some next_payment)
    show ?thesis
    proof (cases "lender (snd lo)")
      case None
      then show ?thesis using Some np by (simp add: make_payment_def)
    next
      case le: (Some lender_id)
      let ?a = "payment_amount (snd next_payment)"
      let ?r = "payment_reference (fst next_payment)"
      obtain tr s1 where tf: "transfer_funds b lender_id ?a LOAN_PAYMENT (Some ?r) s = (tr, s1)"
        by (cases "transfer_funds b lender_id ?a LOAN_PAYMENT (Some ?r) s")
      note tabs = transfer_funds_tables [OF tf]
      have s1: "s1 = snd (transfer_funds b lender_id ?a LOAN_PAYMENT (Some ?r) s)"
        using tf by simp
      have cases3: "make_payment now i b s = (fst (make_payment now i b s), s)
          \<or> (\<not> succeeded (fst (make_payment now i b s)) \<and> snd (make_payment now i b s) = s1)
          \<or> (succeeded (fst (make_payment now i b s))
              \<and> transactions (snd (make_payment now i b s)) = transactions s1)"
        using Some np le tf
        by (auto simp: make_payment_def mark_payment_as_paid_def update_loan_def Let_def
            split: outcome.splits)
      then consider
          (same) "snd (make_payment now i b s) = s"
        | (early) "\<not> succeeded (fst (make_payment now i b s))" "snd (make_payment now i b s) = s1"
        | (went) "succeeded (fst (make_payment now i b s))"
            "transactions (snd (make_payment now i b s)) = transactions s1"
        by (metis snd_conv)
      then show ?thesis
      proof cases
        case same
        then show ?thesis by (cases "fst (make_payment now i b s)") simp_all
      next
        case early
        have "transactions (snd (make_payment now i b s))
                = transactions (snd (transfer_funds b lender_id ?a LOAN_PAYMENT (Some ?r) s))"
          using early(2) s1 by simp
        then have "\<exists>t a r. transactions (snd (make_payment now i b s))
                    = transactions (snd (transfer_funds b t a LOAN_PAYMENT (Some r) s))"
          by (intro exI)
        moreover have "loans (snd (make_payment now i b s)) = loans s"
          "payments (snd (make_payment now i b s)) = payments s"
          "offers (snd (make_payment now i b s)) = offers s"
          using early(2) tabs by simp_all
        ultimately show ?thesis by blast
      next
        case went
        then obtain k p' c where "fst (make_payment now i b s) = Success ((k, p'), c)"
          by (cases "fst (make_payment now i b s)") auto
        then have run: "make_payment now i b s
                          = (Success ((k, p'), c), snd (make_payment now i b s))"
          by (metis prod.collapse)
        have "transactions (snd (make_payment now i b s))
                = transactions (snd (transfer_funds b lender_id ?a LOAN_PAYMENT (Some ?r) s))"
          using went(2) s1 by simp
        then have "\<exists>t a r. transactions (snd (make_payment now i b s))
                    = transactions (snd (transfer_funds b t a LOAN_PAYMENT (Some r) s))"
          by (intro exI)
        with run show ?thesis by blast
      qed
    qed
  qed
qed

lemma fund_loan_extension:
  "balanced_extension (transactions s) (transactions (snd (fund_loan fee now today i u s)))"
  using fund_loan_transactions [of fee now today i u s]
proof (elim disjE exE)
  assume "transactions (snd (fund_loan fee now today i u s)) = transactions s"
  then show ?thesis by (rule balanced_extension_eq)
next
  fix b a
  assume "transactions (snd (fund_loan fee now today i u s))
            = transactions (snd (transfer_funds u b a LOAN_FUNDING (Some (loan_reference i)) s))"
  then show ?thesis by (simp add: transfer_extension)
next
  fix b a
  assume "transactions (snd (fund_loan fee now today i u s))
            = transactions (snd (deduct_platform_fee u fee (Some (fee_reference i))
                (snd (transfer_funds u b a LOAN_FUNDING (Some (loan_reference i)) s))))"
  then show ?thesis
    using balanced_extension_trans [OF transfer_extension deduct_extension] by simp
qed

lemma make_payment_extension:
  "balanced_extension (transactions s) (transactions (snd (make_payment now i b s)))"
proof -
  have "transactions (snd (make_payment now i b s)) = transactions s
        \<or> (\<exists>t a r. transactions (snd (make_payment now i b s))
                    = transactions (snd (transfer_funds b t a LOAN_PAYMENT (Some r) s)))"
    using make_payment_effect [of now i b s] by blast
  then show ?thesis
  proof (elim disjE exE)
    assume "transactions (snd (make_payment now i b s)) = transactions s"
    then show ?thesis by (rule balanced_extension_eq)
  next
    fix t a r
    assume "transactions (snd (make_payment now i b s))
              = transactions (snd (transfer_funds b t a LOAN_PAYMENT (Some r) s))"
    then show ?thesis by (simp add: transfer_extension)
  qed
qed

lemma step_extension:
  "balanced_extension (transactions s) (transactions (step fee op s))"
proof (cases op)
  case (Op_wallet w)
  then show ?thesis by (simp add: wallet_op_extension)
next
  case (Op_create_loan b a n rate)
  then show ?thesis by (simp add: create_loan_effect balanced_extension_refl)
next
  case (Op_create_offer i u rate)
  then show ?thesis by (simp add: create_offer_effect balanced_extension_refl)
next
  case (Op_accept_offer i j b)
  then show ?thesis by (simp add: accept_offer_effect balanced_extension_refl)
next
  case (Op_fund_loan now today i u)
  then show ?thesis by (simp add: fund_loan_extension)
next
  case (Op_make_payment now i b)
  then show ?thesis by (simp add: make_payment_extension)
next
  case (Op_sweep today)
  then show ?thesis by (simp add: sweep_other_tables balanced_extension_refl)
qed

lemma run_extension:
  "balanced_extension (transactions s) (transactions (run fee ops s))"
proof (induction ops arbitrary: s)
  case Nil
  then show ?case by (simp add: run_def balanced_extension_refl)
next
  case (Cons op ops)
  have "run fee (op # ops) s = run fee ops (step fee op s)"
    by (simp add: run_def)
  then show ?case
    using balanced_extension_trans [OF step_extension Cons.IH] by simp
qed

lemma deduct_reference_sum:
  assumes "deduct_platform_fee u a (Some r) s = (Success res, s')"
  shows "reference_sum r (transactions s') = reference_sum r (transactions s) - a"
  using assms
  by (auto simp: deduct_platform_fee_def wallet_defs reference_sum_def
      split: option.splits if_splits)

lemma funding_db_reached: "run fee funding_history empty_db = funding_db"
  by (simp add: run_def funding_history_def funding_db_def empty_db_def loan_request_def
      deposit_funds_def wallet_defs create_loan_def create_offer_def accept_offer_def
      accept_offer_checks_def accept_offer_writes_def loan_repo_defs)

lemma funded_ledger:
  "transactions (snd (fund_loan (15 / 4) noon (Date 2024 3 1) 0 2 funding_db))
     = [\<lparr>entry_wallet = 2, transaction_type = DEPOSIT, entry_amount = 1500, reference_id = None\<rparr>,
        \<lparr>entry_wallet = 2, transaction_type = LOAN_FUNDING, entry_amount = - 1000,
          reference_id = Some ''loan_0''\<rparr>,
        \<lparr>entry_wallet = 5, transaction_type = LOAN_FUNDING, entry_amount = 1000,
          reference_id = Some ''loan_0''\<rparr>,
        \<lparr>entry_wallet = 2, transaction_type = PLATFORM_FEE, entry_amount = - (15 / 4),
          reference_id = Some ''loan_0_fee''\<rparr>]"
proof -
  have fee: "(0::rat) \<le> 15 / 4" by simp
  have loan0: "0 < length (loans funding_db)" "lender (loans funding_db ! 0) = Some 2"
    "status (loans funding_db ! 0) = PENDING_FUNDING" "wallets funding_db 2 = Some 1500"
    "amount (loans funding_db ! 0) + 15 / 4 \<le> 1500" "borrower (loans funding_db ! 0) \<noteq> 2"
    by (simp_all add: funding_db_def loan_request_def)
  have monthly: "monthly_payment ((loans funding_db ! 0)\<lparr>status := FUNDED, funded_at := Some noon\<rparr>)
                   = Inr (17255 / 100)"
    using monthly_payment_fields
            [of "(loans funding_db ! 0)\<lparr>status := FUNDED, funded_at := Some noon\<rparr>"]
          monthly_payment_example
    by (simp add: funding_db_def loan_request_def)
  have rest: "payments funding_db = []" "amount (loans funding_db ! 0) = 1000"
    "borrower (loans funding_db ! 0) = 5"
    "transactions funding_db
       = [\<lparr>entry_wallet = 2, transaction_type = DEPOSIT, entry_amount = 1500,
            reference_id = None\<rparr>]"
    by (simp_all add: funding_db_def loan_request_def)
  have refs: "loan_reference 0 = ''loan_0''" "fee_reference 0 = ''loan_0_fee''"
    by (simp_all add: loan_reference_def fee_reference_def str_nat.simps)
  show ?thesis
    unfolding fund_loan_passed [OF loan0(1-5) fee loan0(6)]
    by (simp add: generate_payment_schedule_def monthly Let_def rest refs)
qed

lemma funding_run_ledger:
  "transactions (run (15 / 4) funding_run empty_db)
     = transactions (snd (fund_loan (15 / 4) noon (Date 2024 3 1) 0 2 funding_db))"
proof -
  have "run (15 / 4) funding_run empty_db
          = step (15 / 4) (Op_fund_loan noon (Date 2024 3 1) 0 2)
              (run (15 / 4) funding_history empty_db)"
    by (simp add: run_def funding_run_def)
  then show ?thesis by (simp add: funding_db_reached)
qed

lemmas funding_run_entries = funding_run_ledger [unfolded funded_ledger]

text \<open>
  Claim C5, as amended. Along any sequence of core operations, from a ledger in which
  the entries other than \<open>PLATFORM_FEE\<close> entries sum to zero under every reference id
  that appears, they still do afterwards; so the sum of all entries under a reference id
  is the sum of its \<open>PLATFORM_FEE\<close> entries. A successful fee deduction appends one
  entry of minus the fee and nothing that balances it: the sum under its reference id
  goes down by the fee.
\<close>

theorem ledger_transfers_sum_to_zero:
  assumes "ledger_balanced s"
  shows "ledger_balanced (run fee ops s)
       \<and> (\<forall>r. transfer_sum r (transactions (run fee ops s)) = 0)
       \<and> (\<forall>r. reference_sum r (transactions (run fee ops s))
                = fee_sum r (transactions (run fee ops s)))
       \<and> (\<forall>u a r res s'. deduct_platform_fee u a (Some r) s = (Success res, s') \<longrightarrow>
             reference_sum r (transactions s') = reference_sum r (transactions s) - a)"
proof -
  from run_extension [of s fee ops] obtain xs
    where xs: "transactions (run fee ops s) = transactions s @ xs" "\<forall>r. transfer_sum r xs = 0"
    unfolding balanced_extension_def by blast
  have zero: "transfer_sum r (transactions (run fee ops s)) = 0" for r
    using assms xs by (simp add: transfer_sum_append ledger_balanced_iff)
  then have "ledger_balanced (run fee ops s)"
    by (simp add: ledger_balanced_iff)
  moreover have "reference_sum r (transactions (run fee ops s))
                   = fee_sum r (transactions (run fee ops s))" for r
    using zero [of r] by (simp add: reference_sum_split)
  ultimately show ?thesis
    using zero deduct_reference_sum by blast
qed

theorem ledger_transfers_sum_to_zero_witness:
  "ledger_balanced empty_db
   \<and> ledger_balanced (run (15 / 4) funding_run empty_db)
   \<and> reference_sum ''loan_0'' (transactions (run (15 / 4) funding_run empty_db)) = 0
   \<and> reference_sum ''fee'' (transactions (snd (deduct_platform_fee 2 (15 / 4) (Some ''fee'') funding_db)))
       = - (15 / 4)"
proof -
  have start: "ledger_balanced empty_db"
    by (simp add: ledger_balanced_def empty_db_def)
  obtain res s' where fee: "deduct_platform_fee 2 (15 / 4) (Some ''fee'') funding_db = (Success res, s')"
    by (simp add: deduct_platform_fee_def wallet_defs funding_db_def)
  have sums: "fee_sum ''loan_0'' (transactions (run (15 / 4) funding_run empty_db)) = 0"
    by (simp add: funding_run_entries fee_sum_def)
  have before: "reference_sum ''fee'' (transactions funding_db) = 0"
    by (simp add: reference_sum_def funding_db_def)
  have funded: "ledger_balanced funding_db"
    by (simp add: ledger_balanced_def funding_db_def)
  from ledger_transfers_sum_to_zero [OF start, of "15 / 4" funding_run] sums
  have a: "ledger_balanced (run (15 / 4) funding_run empty_db)"
    "reference_sum ''loan_0'' (transactions (run (15 / 4) funding_run empty_db)) = 0"
    by simp_all
  from ledger_transfers_sum_to_zero [OF funded, of "15 / 4" "[]"]
  have "deduct_platform_fee 2 (15 / 4) (Some ''fee'') funding_db = (Success res, s') \<longrightarrow>
          reference_sum ''fee'' (transactions s')
            = reference_sum ''fee'' (transactions funding_db) - 15 / 4"
    by blast
  with fee before have b: "reference_sum ''fee'' (transactions s') = - (15 / 4)"
    by simp
  show ?thesis
    using start a b by (simp add: fee)
qed

text \<open>
  Claim C5 as stated fails on the fee. After a deposit, a loan request, an offer, its
  acceptance and the funding, the reference id \<open>loan_0_fee\<close> appears in the ledger on a
  single entry of \<open>-3.75\<close>: the platform has no wallet that would be credited.
\<close>

theorem fee_reference_counterexample:
  "ledger_zero_sum empty_db
   \<and> reference_sum ''loan_0_fee'' (transactions (run (15 / 4) funding_run empty_db)) = - (15 / 4)
   \<and> \<not> ledger_zero_sum (run (15 / 4) funding_run empty_db)"
proof -
  have "ledger_zero_sum empty_db"
    by (simp add: ledger_zero_sum_def empty_db_def)
  moreover have "reference_sum ''loan_0_fee'' (transactions (run (15 / 4) funding_run empty_db))
                   = - (15 / 4)"
    by (simp add: funding_run_entries reference_sum_def)
  moreover have "\<not> ledger_zero_sum (run (15 / 4) funding_run empty_db)"
    by (simp add: ledger_zero_sum_def funding_run_entries reference_sum_def)
  ultimately show ?thesis by blast
qed

lemma make_payment_cases:
  "(\<exists>k p' c. make_payment now i b s = (Success ((k, p'), c), snd (make_payment now i b s)))
   \<or> (loans (snd (make_payment now i b s)) = loans s
       \<and> payments (snd (make_payment now i b s)) = payments s
       \<and> offers (snd (make_payment now i b s)) = offers s)"
  using make_payment_effect [of now i b s]
  apply (elim disjE)
   apply (rule disjI1)
   apply (elim exE conjE)
   apply (intro exI)
   apply assumption
  apply (rule disjI2)
  apply (elim conjE)
  apply (intro conjI)
    apply assumption+
  done

lemma make_payment_success_rows:
  assumes "make_payment now i b s = (Success ((k, p'), c), s')"
  shows "k < length (payments s)"
    and "payment_status (payments s ! k) = PENDING"
    and "payments s' = (payments s)[k := p']"
    and "c = all_paid (get_all_payments_for_loan_status i s')"
    and "loans s' = (if c then (loans s)[i := (loans s ! i)\<lparr>status := COMPLETED\<rparr>]
                    else loans s)"
proof -
  note facts = make_payment_success [OF assms]
  from facts have np: "get_next_pending_payment i s = Some (k, payments s ! k)" by blast
  note sel = next_pending_Some [OF np]
  show "k < length (payments s)" using sel by blast
  show "payment_status (payments s ! k) = PENDING" using sel by blast
  show "payments s' = (payments s)[k := p']" using facts by blast
  show "c = all_paid (get_all_payments_for_loan_status i s')" using facts by blast
  show "loans s' = (if c then (loans s)[i := (loans s ! i)\<lparr>status := COMPLETED\<rparr>]
                    else loans s)" using facts by blast
qed

end
